theory Spec2Isabelle
  imports Complex_Main "HOL-Library.Word"
begin

unbundle bit_operations_syntax

section \<open>Strings, bytes and the platform functions the code calls\<close>

text \<open>
  A JavaScript string is modelled as the list of its code units, a \<^typ>\<open>char\<close> standing
  for one code unit below 256. Request header values are byte strings, so every header
  is covered exactly; a body, a secret or a decoded JSON string is covered when its code
  units are below 256. Buffers are lists of bytes.
\<close>

type_synonym byte = "8 word"
type_synonym u32 = "32 word"

text \<open>
  What a \<^verbatim>\<open>throw\<close> carries: the constructor is the JavaScript error class, the
  string its message.
\<close>

datatype js_error = Error string | RangeError string

text \<open>
  The UTF-8 encoding of a string, which \<^verbatim>\<open>createHmac(alg, key)\<close> applies to a
  string key and \<^verbatim>\<open>update(payload)\<close> to a string payload: one byte below
  128, two bytes from 128 to 255.
\<close>

fun utf8_encode :: "string \<Rightarrow> byte list" where
  "utf8_encode [] = []"
| "utf8_encode (c # cs) =
     (let n = (of_char c :: nat)
      in if n < 128 then [of_nat n]
         else [of_nat (192 + n div 64), of_nat (128 + n mod 64)]) @ utf8_encode cs"

subsection \<open>SHA-256 (FIPS 180-4) and HMAC (RFC 2104)\<close>

text \<open>
  \<^verbatim>\<open>createHmac('sha256', key).update(payload).digest('hex')\<close> of Node's
  \<^verbatim>\<open>crypto\<close> module: the hash, the keyed construction over it and the
  lower-case hexadecimal rendering of the 32 bytes.
\<close>

text \<open>
  The round constants, each beside the prime it comes from: the constant of the prime
  \<open>p\<close> is the first 32 bits of the fractional part of the cube root of \<open>p\<close>.
\<close>

definition K256_table :: "(nat \<times> u32) list" where
  "K256_table =
    [(2, 0x428a2f98), (3, 0x71374491), (5, 0xb5c0fbcf), (7, 0xe9b5dba5),
     (11, 0x3956c25b), (13, 0x59f111f1), (17, 0x923f82a4), (19, 0xab1c5ed5),
     (23, 0xd807aa98), (29, 0x12835b01), (31, 0x243185be), (37, 0x550c7dc3),
     (41, 0x72be5d74), (43, 0x80deb1fe), (47, 0x9bdc06a7), (53, 0xc19bf174),
     (59, 0xe49b69c1), (61, 0xefbe4786), (67, 0x0fc19dc6), (71, 0x240ca1cc),
     (73, 0x2de92c6f), (79, 0x4a7484aa), (83, 0x5cb0a9dc), (89, 0x76f988da),
     (97, 0x983e5152), (101, 0xa831c66d), (103, 0xb00327c8), (107, 0xbf597fc7),
     (109, 0xc6e00bf3), (113, 0xd5a79147), (127, 0x06ca6351), (131, 0x14292967),
     (137, 0x27b70a85), (139, 0x2e1b2138), (149, 0x4d2c6dfc), (151, 0x53380d13),
     (157, 0x650a7354), (163, 0x766a0abb), (167, 0x81c2c92e), (173, 0x92722c85),
     (179, 0xa2bfe8a1), (181, 0xa81a664b), (191, 0xc24b8b70), (193, 0xc76c51a3),
     (197, 0xd192e819), (199, 0xd6990624), (211, 0xf40e3585), (223, 0x106aa070),
     (227, 0x19a4c116), (229, 0x1e376c08), (233, 0x2748774c), (239, 0x34b0bcb5),
     (241, 0x391c0cb3), (251, 0x4ed8aa4a), (257, 0x5b9cca4f), (263, 0x682e6ff3),
     (269, 0x748f82ee), (271, 0x78a5636f), (277, 0x84c87814), (281, 0x8cc70208),
     (283, 0x90befffa), (293, 0xa4506ceb), (307, 0xbef9a3f7), (311, 0xc67178f2)]"

definition K256 :: "u32 list" where
  "K256 = map snd K256_table"

type_synonym sha_state = "u32 \<times> u32 \<times> u32 \<times> u32 \<times> u32 \<times> u32 \<times> u32 \<times> u32"

definition H256 :: sha_state where
  "H256 = (0x6a09e667, 0xbb67ae85, 0x3c6ef372, 0xa54ff53a,
           0x510e527f, 0x9b05688c, 0x1f83d9ab, 0x5be0cd19)"

definition Ch :: "u32 \<Rightarrow> u32 \<Rightarrow> u32 \<Rightarrow> u32" where
  "Ch x y z = (x AND y) XOR (NOT x AND z)"

definition Maj :: "u32 \<Rightarrow> u32 \<Rightarrow> u32 \<Rightarrow> u32" where
  "Maj x y z = (x AND y) XOR (x AND z) XOR (y AND z)"

definition bsig0 :: "u32 \<Rightarrow> u32" where
  "bsig0 x = word_rotr 2 x XOR word_rotr 13 x XOR word_rotr 22 x"

definition bsig1 :: "u32 \<Rightarrow> u32" where
  "bsig1 x = word_rotr 6 x XOR word_rotr 11 x XOR word_rotr 25 x"

definition ssig0 :: "u32 \<Rightarrow> u32" where
  "ssig0 x = word_rotr 7 x XOR word_rotr 18 x XOR drop_bit 3 x"

definition ssig1 :: "u32 \<Rightarrow> u32" where
  "ssig1 x = word_rotr 17 x XOR word_rotr 19 x XOR drop_bit 10 x"

definition be64 :: "64 word \<Rightarrow> byte list" where
  "be64 w =
     [ucast (drop_bit 56 w), ucast (drop_bit 48 w), ucast (drop_bit 40 w),
      ucast (drop_bit 32 w), ucast (drop_bit 24 w), ucast (drop_bit 16 w),
      ucast (drop_bit 8 w), ucast w]"

definition sha256_pad :: "byte list \<Rightarrow> byte list" where
  "sha256_pad m =
     m @ [0x80] @ replicate ((119 - length m mod 64) mod 64) 0 @ be64 (of_nat (8 * length m))"

definition be32 :: "byte \<Rightarrow> byte \<Rightarrow> byte \<Rightarrow> byte \<Rightarrow> u32" where
  "be32 a b c d =
     push_bit 24 (ucast a) OR push_bit 16 (ucast b) OR push_bit 8 (ucast c) OR ucast d"

fun words_of :: "byte list \<Rightarrow> u32 list" where
  "words_of (a # b # c # d # rest) = be32 a b c d # words_of rest"
| "words_of _ = []"

definition bytes_of :: "u32 \<Rightarrow> byte list" where
  "bytes_of w = [ucast (drop_bit 24 w), ucast (drop_bit 16 w), ucast (drop_bit 8 w), ucast w]"

fun extend :: "nat \<Rightarrow> u32 list \<Rightarrow> u32 list" where
  "extend 0 w = w"
| "extend (Suc n) w =
     (let t = length w
      in extend n (w @ [ssig1 (w ! (t - 2)) + w ! (t - 7) + ssig0 (w ! (t - 15)) + w ! (t - 16)]))"

fun sha_round :: "u32 \<times> u32 \<Rightarrow> sha_state \<Rightarrow> sha_state" where
  "sha_round (k, w) (a, b, c, d, e, f, g, h) =
     (let t1 = h + bsig1 e + Ch e f g + k + w;
          t2 = bsig0 a + Maj a b c
      in (t1 + t2, a, b, c, d + t1, e, f, g))"

fun add_state :: "sha_state \<Rightarrow> sha_state \<Rightarrow> sha_state" where
  "add_state (a, b, c, d, e, f, g, h) (a', b', c', d', e', f', g', h') =
     (a + a', b + b', c + c', d + d', e + e', f + f', g + g', h + h')"

definition compress :: "sha_state \<Rightarrow> u32 list \<Rightarrow> sha_state" where
  "compress s blk = add_state s (fold sha_round (zip K256 (extend 48 blk)) s)"

fun sha_blocks :: "nat \<Rightarrow> sha_state \<Rightarrow> u32 list \<Rightarrow> sha_state" where
  "sha_blocks 0 s ws = s"
| "sha_blocks (Suc n) s ws = sha_blocks n (compress s (take 16 ws)) (drop 16 ws)"

fun state_bytes :: "sha_state \<Rightarrow> byte list" where
  "state_bytes (a, b, c, d, e, f, g, h) = concat (map bytes_of [a, b, c, d, e, f, g, h])"

definition sha256 :: "byte list \<Rightarrow> byte list" where
  "sha256 m =
     (let ws = words_of (sha256_pad m)
      in state_bytes (sha_blocks (length ws div 16) H256 ws))"

definition hmac_sha256 :: "byte list \<Rightarrow> byte list \<Rightarrow> byte list" where
  "hmac_sha256 key msg =
     (let k = (if length key > 64 then sha256 key else key);
          k0 = k @ replicate (64 - length k) 0
      in sha256 (map (\<lambda>b. b XOR 0x5c) k0 @ sha256 (map (\<lambda>b. b XOR 0x36) k0 @ msg)))"

subsection \<open>Hexadecimal text\<close>

text \<open>\<^verbatim>\<open>digest('hex')\<close>: two lower-case digits for each byte.\<close>

definition hex_digit :: "nat \<Rightarrow> char" where
  "hex_digit n = ''0123456789abcdef'' ! n"

definition hex_encode :: "byte list \<Rightarrow> string" where
  "hex_encode bs = concat (map (\<lambda>b. [hex_digit (unat b div 16), hex_digit (unat b mod 16)]) bs)"

text \<open>
  \<^verbatim>\<open>Buffer.from(s, 'hex')\<close> of Node: the string is read two characters at a
  time, digits in either case; decoding stops at the first pair that holds a character
  which is no hexadecimal digit, and a single character left at the end is dropped. The
  call returns the bytes decoded so far and does not throw.
\<close>

definition unhex :: "char \<Rightarrow> nat option" where
  "unhex c =
     (let n = (of_char c :: nat)
      in if 48 \<le> n \<and> n \<le> 57 then Some (n - 48)
         else if 97 \<le> n \<and> n \<le> 102 then Some (n - 87)
         else if 65 \<le> n \<and> n \<le> 70 then Some (n - 55)
         else None)"

fun Buffer_from_hex :: "string \<Rightarrow> byte list" where
  "Buffer_from_hex (a # b # rest) =
     (case unhex a of
        None \<Rightarrow> []
      | Some x \<Rightarrow>
          (case unhex b of
             None \<Rightarrow> []
           | Some y \<Rightarrow> of_nat (16 * x + y) # Buffer_from_hex rest))"
| "Buffer_from_hex _ = []"

text \<open>
  \<^verbatim>\<open>crypto.timingSafeEqual(a, b)\<close>: a \<^verbatim>\<open>RangeError\<close> when the two
  buffers differ in length, otherwise whether they hold the same bytes.
\<close>

definition timingSafeEqual :: "byte list \<Rightarrow> byte list \<Rightarrow> js_error + bool" where
  "timingSafeEqual a b =
     (if length a \<noteq> length b
      then Inl (RangeError ''Input buffers must have the same byte length'')
      else Inr (a = b))"

section \<open>The security library: signatures, freshness, rate limit\<close>

text \<open>
  The environment variables the code reads. An unset variable is \<open>None\<close>;
  \<^verbatim>\<open>!x\<close> and \<^verbatim>\<open>x || y\<close> treat the unset and the empty string alike.
\<close>

record env =
  WEBHOOK_SECRET :: "string option"
  ALLOWED_ORIGINS_var :: "string option"
  API_KEYS_var :: "string option"

definition truthy :: "string option \<Rightarrow> bool" where
  "truthy s = (case s of None \<Rightarrow> False | Some v \<Rightarrow> v \<noteq> [])"

definition getWebhookSecret :: "env \<Rightarrow> js_error + string" where
  "getWebhookSecret e =
     (case WEBHOOK_SECRET e of
        None \<Rightarrow> Inl (Error ''WEBHOOK_SECRET environment variable is not set'')
      | Some secret \<Rightarrow>
          if secret = [] then Inl (Error ''WEBHOOK_SECRET environment variable is not set'')
          else Inr secret)"

text \<open>The expression \<^verbatim>\<open>secret || getWebhookSecret()\<close> of both functions.\<close>

definition secretKey_of :: "env \<Rightarrow> string option \<Rightarrow> js_error + string" where
  "secretKey_of e secret =
     (case secret of
        None \<Rightarrow> getWebhookSecret e
      | Some s \<Rightarrow> if s = [] then getWebhookSecret e else Inr s)"

definition generateSignature :: "env \<Rightarrow> string \<Rightarrow> string option \<Rightarrow> js_error + string" where
  "generateSignature e payload secret =
     (case secretKey_of e secret of
        Inl err \<Rightarrow> Inl err
      | Inr secretKey \<Rightarrow>
          Inr (hex_encode (hmac_sha256 (utf8_encode secretKey) (utf8_encode payload))))"

text \<open>
  The secret is resolved and the expected signature computed before the
  \<^verbatim>\<open>try\<close>, so a missing secret is thrown to the caller; whatever is thrown
  inside the \<^verbatim>\<open>try\<close> becomes \<^verbatim>\<open>false\<close>.
\<close>

definition verifySignature :: "env \<Rightarrow> string \<Rightarrow> string \<Rightarrow> string option \<Rightarrow> js_error + bool" where
  "verifySignature e payload signature secret =
     (case secretKey_of e secret of
        Inl err \<Rightarrow> Inl err
      | Inr secretKey \<Rightarrow>
          (case generateSignature e payload (Some secretKey) of
             Inl err \<Rightarrow> Inl err
           | Inr expectedSignature \<Rightarrow>
               (let signatureBuffer = Buffer_from_hex signature;
                    expectedBuffer = Buffer_from_hex expectedSignature
                in if length signatureBuffer \<noteq> length expectedBuffer then Inr False
                   else (case timingSafeEqual signatureBuffer expectedBuffer of
                           Inl err \<Rightarrow> Inr False
                         | Inr r \<Rightarrow> Inr r))))"

text \<open>
  A JavaScript number is modelled as an exact rational or \<open>NaN\<close>: the integers the
  clock and \<^verbatim>\<open>parseInt\<close> produce are exact in a double up to \<open>2 ^ 53\<close>.
  Arithmetic and comparison with \<open>NaN\<close> follow JavaScript: the result is \<open>NaN\<close>,
  the comparison false.
\<close>

datatype jsnum = Num rat | NaN

fun js_sub :: "jsnum \<Rightarrow> jsnum \<Rightarrow> jsnum" where
  "js_sub (Num a) (Num b) = Num (a - b)"
| "js_sub _ _ = NaN"

fun Math_abs :: "jsnum \<Rightarrow> jsnum" where
  "Math_abs (Num a) = Num \<bar>a\<bar>"
| "Math_abs NaN = NaN"

fun js_less :: "jsnum \<Rightarrow> jsnum \<Rightarrow> bool" where
  "js_less (Num a) (Num b) = (a < b)"
| "js_less _ _ = False"

text \<open>\<open>now\<close> is what \<^verbatim>\<open>Date.now()\<close> returns in the call.\<close>

definition verifyTimestamp :: "int \<Rightarrow> jsnum \<Rightarrow> bool" where
  "verifyTimestamp now timestamp =
     (let diff = Math_abs (js_sub (Num (of_int now)) timestamp);
          fiveMinutes = Num (5 * 60 * 1000)
      in js_less diff fiveMinutes)"

text \<open>
  The module's \<^verbatim>\<open>requestCounts\<close> map is passed in and returned. The record
  found in the map is mutated in place by \<^verbatim>\<open>record.count++\<close>, which is the
  update of the map at that key. Callers that leave out \<open>limit\<close> and \<open>windowMs\<close>
  get 10 and 60000; the handler passes both.
\<close>

record rate_record =
  count :: int
  resetAt :: int

type_synonym requestCounts = "string \<rightharpoonup> rate_record"

definition checkRateLimit ::
  "int \<Rightarrow> requestCounts \<Rightarrow> string \<Rightarrow> int \<Rightarrow> int \<Rightarrow> bool \<times> requestCounts" where
  "checkRateLimit now rc identifier limit windowMs =
     (case rc identifier of
        None \<Rightarrow> (True, rc(identifier \<mapsto> \<lparr>count = 1, resetAt = now + windowMs\<rparr>))
      | Some r \<Rightarrow>
          if now > resetAt r
          then (True, rc(identifier \<mapsto> \<lparr>count = 1, resetAt = now + windowMs\<rparr>))
          else if count r \<ge> limit then (False, rc)
          else (True, rc(identifier \<mapsto> r\<lparr>count := count r + 1\<rparr>)))"

text \<open>A run of calls with one limit: each call has its clock reading, identifier and window.\<close>

fun rate_calls :: "int \<Rightarrow> (int \<times> string \<times> int) list \<Rightarrow> requestCounts \<Rightarrow> requestCounts" where
  "rate_calls limit [] rc = rc"
| "rate_calls limit ((now, identifier, windowMs) # cs) rc =
     rate_calls limit cs (snd (checkRateLimit now rc identifier limit windowMs))"

text \<open>
  Calls of one identifier with one limit and window at the given clock readings: the
  answers in order, and the map after the last.
\<close>

fun rate_answers ::
  "string \<Rightarrow> int \<Rightarrow> int \<Rightarrow> int list \<Rightarrow> requestCounts \<Rightarrow> bool list \<times> requestCounts" where
  "rate_answers identifier limit windowMs [] rc = ([], rc)"
| "rate_answers identifier limit windowMs (now # ts) rc =
     (case checkRateLimit now rc identifier limit windowMs of
        (ok, rc') \<Rightarrow>
          (case rate_answers identifier limit windowMs ts rc' of
             (oks, rc'') \<Rightarrow> (ok # oks, rc'')))"

section \<open>The lead schema\<close>

text \<open>
  A value as \<^verbatim>\<open>JSON.parse\<close> returns it. An object is the list of its keys and
  values, each key once; a key that is not in the list reads as \<^verbatim>\<open>undefined\<close>.
  Numbers are exact rationals, which every finite double is.
\<close>

datatype json =
    JNull
  | JBool bool
  | JNum rat
  | JStr string
  | JArr "json list"
  | JObj "(string \<times> json) list"

text \<open>\<^verbatim>\<open>String.prototype.split\<close> with a separator of one character.\<close>

fun split_on :: "char \<Rightarrow> string \<Rightarrow> string list" where
  "split_on sep [] = [[]]"
| "split_on sep (c # cs) =
     (if c = sep then [] # split_on sep cs
      else (case split_on sep cs of
              [] \<Rightarrow> [[c]]
            | w # ws \<Rightarrow> (c # w) # ws))"

text \<open>
  The check behind \<^verbatim>\<open>z.string().email()\<close> in zod 3.23 and later is the
  pattern
  \<^verbatim>\<open>/^(?!\.)(?!.*\.\.)([A-Z0-9_'+\-\.]*)[A-Z0-9_+-]@([A-Z0-9][A-Z0-9\-]*\.)+[A-Z]{2,}$/i\<close>:
  a local part of letters, digits and \<^verbatim>\<open>_ ' + - .\<close> that does not start with a
  dot and does not end in a dot or an apostrophe, no two dots in a row, then labels
  closed by dots and a last label of two or more letters.
\<close>

definition is_alpha :: "char \<Rightarrow> bool" where
  "is_alpha c = (let n = (of_char c :: nat) in (65 \<le> n \<and> n \<le> 90) \<or> (97 \<le> n \<and> n \<le> 122))"

definition is_digit :: "char \<Rightarrow> bool" where
  "is_digit c = (let n = (of_char c :: nat) in 48 \<le> n \<and> n \<le> 57)"

definition email_last_char :: "char \<Rightarrow> bool" where
  "email_last_char c = (is_alpha c \<or> is_digit c \<or> c = CHR ''_'' \<or> c = CHR ''+'' \<or> c = CHR ''-'')"

definition email_local_char :: "char \<Rightarrow> bool" where
  "email_local_char c = (email_last_char c \<or> c = CHR 0x27 \<or> c = CHR ''.'')"

definition email_label :: "string \<Rightarrow> bool" where
  "email_label l =
     (case l of
        [] \<Rightarrow> False
      | c # cs \<Rightarrow> (is_alpha c \<or> is_digit c)
                 \<and> list_all (\<lambda>d. is_alpha d \<or> is_digit d \<or> d = CHR ''-'') cs)"

definition email_tld :: "string \<Rightarrow> bool" where
  "email_tld t = (2 \<le> length t \<and> list_all is_alpha t)"

fun has_dotdot :: "string \<Rightarrow> bool" where
  "has_dotdot (a # b # cs) = ((a = CHR ''.'' \<and> b = CHR ''.'') \<or> has_dotdot (b # cs))"
| "has_dotdot _ = False"

definition is_email :: "string \<Rightarrow> bool" where
  "is_email s =
     (case dropWhile (\<lambda>c. c \<noteq> CHR ''@'') s of
        [] \<Rightarrow> False
      | c0 # domain \<Rightarrow>
          (case rev (takeWhile (\<lambda>c. c \<noteq> CHR ''@'') s) of
             [] \<Rightarrow> False
           | l # lacol \<Rightarrow>
               (case rev (split_on CHR ''.'' domain) of
                  [] \<Rightarrow> False
                | tld # slebal \<Rightarrow>
                    take 1 s \<noteq> ''.'' \<and> \<not> has_dotdot s
                    \<and> list_all email_local_char lacol \<and> email_last_char l
                    \<and> slebal \<noteq> [] \<and> list_all email_label slebal \<and> email_tld tld)))"

text \<open>
  zod 3 as the schema uses it. A schema reads the value at a key (\<open>None\<close> when the key
  is absent) and returns a status, the value and the issues it raised. A value of the
  wrong type aborts; a failed check of a string (\<^verbatim>\<open>min\<close>, \<^verbatim>\<open>email\<close>)
  leaves the value dirty and goes on to the next check.
\<close>

datatype zstatus = valid | dirty | aborted

record issue =
  issue_path :: "string list"
  issue_message :: string

fun getParsedType :: "json \<Rightarrow> string" where
  "getParsedType JNull = ''null''"
| "getParsedType (JBool b) = ''boolean''"
| "getParsedType (JNum x) = ''number''"
| "getParsedType (JStr s) = ''string''"
| "getParsedType (JArr xs) = ''array''"
| "getParsedType (JObj kvs) = ''object''"

definition invalid_type :: "string \<Rightarrow> string list \<Rightarrow> json option \<Rightarrow> issue" where
  "invalid_type expected p v =
     \<lparr>issue_path = p,
      issue_message =
        (case v of
           None \<Rightarrow> ''Required''
         | Some j \<Rightarrow> ''Expected '' @ expected @ '', received '' @ getParsedType j)\<rparr>"

datatype string_check = Min nat string | Email string

fun check_fails :: "string_check \<Rightarrow> string \<Rightarrow> bool" where
  "check_fails (Min n m) s = (length s < n)"
| "check_fails (Email m) s = (\<not> is_email s)"

fun check_message :: "string_check \<Rightarrow> string" where
  "check_message (Min n m) = m"
| "check_message (Email m) = m"

definition z_string ::
  "string_check list \<Rightarrow> string list \<Rightarrow> json option \<Rightarrow> zstatus \<times> string option \<times> issue list" where
  "z_string checks p v =
     (case v of
        Some (JStr s) \<Rightarrow>
          (let failed = filter (\<lambda>c. check_fails c s) checks
           in (if failed = [] then valid else dirty, Some s,
               map (\<lambda>c. \<lparr>issue_path = p, issue_message = check_message c\<rparr>) failed))
      | _ \<Rightarrow> (aborted, None, [invalid_type ''string'' p v]))"

definition z_number :: "string list \<Rightarrow> json option \<Rightarrow> zstatus \<times> rat option \<times> issue list" where
  "z_number p v =
     (case v of
        Some (JNum x) \<Rightarrow> (valid, Some x, [])
      | _ \<Rightarrow> (aborted, None, [invalid_type ''number'' p v]))"

definition z_optional ::
  "(string list \<Rightarrow> json option \<Rightarrow> zstatus \<times> 'a option \<times> issue list) \<Rightarrow>
   string list \<Rightarrow> json option \<Rightarrow> zstatus \<times> 'a option \<times> issue list" where
  "z_optional inner p v = (case v of None \<Rightarrow> (valid, None, []) | Some j \<Rightarrow> inner p v)"

definition merge_status :: "zstatus list \<Rightarrow> zstatus" where
  "merge_status ss =
     (if aborted \<in> set ss then aborted else if dirty \<in> set ss then dirty else valid)"

text \<open>The messages of the schema; the accented letters are the code units 225 and 233.\<close>

definition name_message :: string where
  "name_message = ''El nombre debe tener al menos 2 caracteres''"

definition email_message :: string where
  "email_message = ''Email inv'' @ [CHR 0xE1] @ ''lido''"

definition phone_message :: string where
  "phone_message = ''Tel'' @ [CHR 0xE9] @ ''fono inv'' @ [CHR 0xE1] @ ''lido''"

definition contact_message :: string where
  "contact_message = ''Debe proporcionar al menos email o tel'' @ [CHR 0xE9] @ ''fono''"

record LeadInput =
  name :: string
  email :: "string option"
  phone :: "string option"
  city :: "string option"
  street :: "string option"
  message :: "string option"
  "notes" :: "string option"
  source :: "string option"
  utmSource :: "string option"
  utmMedium :: "string option"
  utmCampaign :: "string option"
  utmTerm :: "string option"
  utmContent :: "string option"
  timestamp :: "rat option"

text \<open>
  \<^verbatim>\<open>z.object({...})\<close>: the value must be an object; every key of the shape is
  parsed in the order of the shape and the issues are collected; keys outside the shape are
  dropped. The object aborts when a field aborts and is dirty when a field is dirty.
\<close>

definition z_field :: "(string \<times> json) list \<Rightarrow> string \<Rightarrow> zstatus \<times> string option \<times> issue list" where
  "z_field kvs k = z_optional (z_string []) [k] (map_of kvs k)"

definition LeadSchema_object :: "json \<Rightarrow> zstatus \<times> LeadInput option \<times> issue list" where
  "LeadSchema_object j =
     (case j of
        JObj kvs \<Rightarrow>
          (case z_string [Min 2 name_message] [''name''] (map_of kvs ''name'') of (s1, v1, i1) \<Rightarrow>
           case z_optional (z_string [Email email_message]) [''email''] (map_of kvs ''email'') of (s2, v2, i2) \<Rightarrow>
           case z_optional (z_string [Min 9 phone_message]) [''phone''] (map_of kvs ''phone'') of (s3, v3, i3) \<Rightarrow>
           case z_field kvs ''city'' of (s4, v4, i4) \<Rightarrow>
           case z_field kvs ''street'' of (s5, v5, i5) \<Rightarrow>
           case z_field kvs ''message'' of (s6, v6, i6) \<Rightarrow>
           case z_field kvs ''notes'' of (s7, v7, i7) \<Rightarrow>
           case z_field kvs ''source'' of (s8, v8, i8) \<Rightarrow>
           case z_field kvs ''utmSource'' of (s9, v9, i9) \<Rightarrow>
           case z_field kvs ''utmMedium'' of (s10, v10, i10) \<Rightarrow>
           case z_field kvs ''utmCampaign'' of (s11, v11, i11) \<Rightarrow>
           case z_field kvs ''utmTerm'' of (s12, v12, i12) \<Rightarrow>
           case z_field kvs ''utmContent'' of (s13, v13, i13) \<Rightarrow>
           case z_optional z_number [''timestamp''] (map_of kvs ''timestamp'') of (s14, v14, i14) \<Rightarrow>
             (merge_status [s1, s2, s3, s4, s5, s6, s7, s8, s9, s10, s11, s12, s13, s14],
              (case v1 of
                 None \<Rightarrow> None
               | Some n \<Rightarrow>
                   Some \<lparr>name = n, email = v2, phone = v3, city = v4, street = v5, message = v6,
                         notes = v7, source = v8, utmSource = v9, utmMedium = v10,
                         utmCampaign = v11, utmTerm = v12, utmContent = v13, timestamp = v14\<rparr>),
              i1 @ i2 @ i3 @ i4 @ i5 @ i6 @ i7 @ i8 @ i9 @ i10 @ i11 @ i12 @ i13 @ i14))
      | _ \<Rightarrow> (aborted, None, [invalid_type ''object'' [] (Some j)]))"

text \<open>
  \<^verbatim>\<open>.refine((data) => data.email || data.phone, ...)\<close> and
  \<^verbatim>\<open>safeParse\<close>: the refinement is not run on an aborted object; on a valid or
  dirty one it adds its issue at the path \<^verbatim>\<open>['email']\<close> when neither field is a
  non-empty string. The parse succeeds when the object is valid and the refinement holds;
  otherwise it returns the issues.
\<close>

definition LeadSchema_safeParse :: "json \<Rightarrow> issue list + LeadInput" where
  "LeadSchema_safeParse j =
     (case LeadSchema_object j of
        (st, None, issues) \<Rightarrow> Inl issues
      | (st, Some data, issues) \<Rightarrow>
          if st = aborted then Inl issues
          else if truthy (email data) \<or> truthy (phone data)
          then (if st = valid then Inr data else Inl issues)
          else Inl (issues @ [\<lparr>issue_path = [''email''], issue_message = contact_message\<rparr>]))"

section \<open>The webhook route\<close>

text \<open>The two module constants, split from the environment when the module loads.\<close>

definition ALLOWED_ORIGINS :: "env \<Rightarrow> string list" where
  "ALLOWED_ORIGINS e =
     filter (\<lambda>s. s \<noteq> [])
       (split_on CHR '','' (case ALLOWED_ORIGINS_var e of None \<Rightarrow> [] | Some v \<Rightarrow> v))"

definition VALID_API_KEYS :: "env \<Rightarrow> string list" where
  "VALID_API_KEYS e =
     filter (\<lambda>s. s \<noteq> [])
       (split_on CHR '','' (case API_KEYS_var e of None \<Rightarrow> [] | Some v \<Rightarrow> v))"

text \<open>\<^verbatim>\<open>String.prototype.includes\<close>: the argument occurs somewhere in the string.\<close>

fun includes_str :: "string \<Rightarrow> string \<Rightarrow> bool" where
  "includes_str [] t = (t = [])"
| "includes_str (c # cs) t = (take (length t) (c # cs) = t \<or> includes_str cs t)"

definition checkCORS :: "env \<Rightarrow> string option \<Rightarrow> bool" where
  "checkCORS e origin =
     (case origin of
        None \<Rightarrow> False
      | Some v \<Rightarrow>
          if v = [] then False
          else list_ex (\<lambda>allowed. includes_str v allowed) (ALLOWED_ORIGINS e))"

definition checkAPIKey :: "env \<Rightarrow> string option \<Rightarrow> bool" where
  "checkAPIKey e apiKey =
     (case apiKey of
        None \<Rightarrow> False
      | Some k \<Rightarrow> if k = [] then False else k \<in> set (VALID_API_KEYS e))"

record cors_headers =
  Access_Control_Allow_Origin :: string
  Access_Control_Allow_Methods :: string
  Access_Control_Allow_Headers :: string
  Access_Control_Max_Age :: string

text \<open>\<^verbatim>\<open>a || b\<close> on strings that may be absent, and with a literal at the end.\<close>

definition js_or :: "string option \<Rightarrow> string option \<Rightarrow> string option" where
  "js_or a b = (if truthy a then a else b)"

definition js_or_lit :: "string option \<Rightarrow> string \<Rightarrow> string" where
  "js_or_lit a d = (case a of None \<Rightarrow> d | Some v \<Rightarrow> if v = [] then d else v)"

definition getCORSHeaders :: "string option \<Rightarrow> cors_headers" where
  "getCORSHeaders origin =
     \<lparr>Access_Control_Allow_Origin = js_or_lit origin ''*'',
      Access_Control_Allow_Methods = ''POST, OPTIONS'',
      Access_Control_Allow_Headers = ''Content-Type, X-API-Key, X-Signature, X-Timestamp'',
      Access_Control_Max_Age = ''86400''\<rparr>"

text \<open>
  \<^verbatim>\<open>parseInt(s, 10)\<close>: white space is skipped, one sign is read, then the
  longest run of decimal digits; no digit gives \<open>NaN\<close>. The white space below 256 is
  the code units 9 to 13, 32 and 160.
\<close>

definition is_space :: "char \<Rightarrow> bool" where
  "is_space c = (let n = (of_char c :: nat) in (9 \<le> n \<and> n \<le> 13) \<or> n = 32 \<or> n = 160)"

fun digits_value :: "nat \<Rightarrow> string \<Rightarrow> nat" where
  "digits_value acc [] = acc"
| "digits_value acc (c # cs) = digits_value (10 * acc + (of_char c - 48)) cs"

definition parseInt10 :: "string \<Rightarrow> jsnum" where
  "parseInt10 s =
     (let t = dropWhile is_space s;
          sign = (if take 1 t = ''-'' then - 1 else (1 :: int));
          r = (if take 1 t = ''-'' \<or> take 1 t = ''+'' then drop 1 t else t);
          z = takeWhile is_digit r
      in if z = [] then NaN else Num (of_int (sign * int (digits_value 0 z))))"

text \<open>
  The stored projection. The fields \<open>db_name\<close> to \<open>db_source\<close> are the columns
  \<^verbatim>\<open>name\<close> to \<^verbatim>\<open>source\<close> of \<^verbatim>\<open>LeadDB\<close>.
\<close>

record lead_metadata =
  utm_source :: "string option"
  utm_medium :: "string option"
  utm_campaign :: "string option"
  utm_term :: "string option"
  utm_content :: "string option"
  ip_address :: string
  user_agent :: "string option"
  form_timestamp :: jsnum
  received_at :: string

record LeadDB =
  db_name :: string
  db_email :: "string option"
  db_phone :: "string option"
  db_city :: "string option"
  db_street :: "string option"
  db_notes :: "string option"
  db_status :: string
  db_priority :: string
  db_source :: string
  db_metadata :: lead_metadata

text \<open>
  The object literal \<^verbatim>\<open>leadDB\<close> of the handler, from the validated lead, the
  \<^verbatim>\<open>origin\<close> header, the resolved address, the \<^verbatim>\<open>user-agent\<close>
  header, the parsed \<^verbatim>\<open>X-Timestamp\<close> and the time of receipt.
\<close>

definition leadDB ::
  "LeadInput \<Rightarrow> string option \<Rightarrow> string \<Rightarrow> string option \<Rightarrow> jsnum \<Rightarrow> string \<Rightarrow> LeadDB" where
  "leadDB validatedLead origin ip userAgent timestampNum receivedAt =
     \<lparr>db_name = name validatedLead,
      db_email = email validatedLead,
      db_phone = phone validatedLead,
      db_city = city validatedLead,
      db_street = street validatedLead,
      db_notes = js_or (message validatedLead) (notes validatedLead),
      db_status = ''Recibido'',
      db_priority = ''media'',
      db_source = js_or_lit (js_or (source validatedLead) origin) ''api-webhook'',
      db_metadata =
        \<lparr>utm_source = utmSource validatedLead,
         utm_medium = utmMedium validatedLead,
         utm_campaign = utmCampaign validatedLead,
         utm_term = utmTerm validatedLead,
         utm_content = utmContent validatedLead,
         ip_address = ip,
         user_agent = js_or userAgent None,
         form_timestamp =
           (case timestamp validatedLead of
              None \<Rightarrow> timestampNum
            | Some t \<Rightarrow> if t = 0 then timestampNum else Num t),
         received_at = receivedAt\<rparr>\<rparr>"

text \<open>
  A request is its headers (\<open>None\<close> when \<^verbatim>\<open>headers.get\<close> returns
  \<^verbatim>\<open>null\<close>) and the text of its body.
\<close>

record request =
  origin_header :: "string option"
  x_api_key :: "string option"
  x_forwarded_for :: "string option"
  x_real_ip :: "string option"
  x_signature :: "string option"
  x_timestamp :: "string option"
  user_agent_header :: "string option"
  bodyText :: string

text \<open>
  What one call of the handler reads from outside: the clock in \<open>checkRateLimit\<close>, the
  clock in \<open>verifyTimestamp\<close>, the value \<^verbatim>\<open>JSON.parse(bodyText)\<close> returns
  (\<open>None\<close> when it throws), the answer of the store to the insert, and the time of
  receipt as text.
\<close>

datatype store_answer =
    Inserted string
  | Refused string
  | Thrown string

record world =
  clock_rate :: int
  clock_fresh :: int
  JSON_parse :: "json option"
  store :: store_answer
  clock_received :: string

datatype response_body =
    ErrorBody string
  | ErrorDetails string string
  | ValidationFailed "issue list"
  | LeadReceived string

record response =
  status :: nat
  body :: response_body
  headers :: cors_headers

text \<open>
  The address the rate limit is keyed by: the first of the two headers that is present and
  not empty, else the literal.
\<close>

definition caller_ip :: "request \<Rightarrow> string" where
  "caller_ip req = js_or_lit (js_or (x_forwarded_for req) (x_real_ip req)) ''unknown''"

text \<open>
  The \<^verbatim>\<open>POST\<close> handler. It returns the response, the counter map after the
  call, and the record handed to the store, if the call got that far. An exception thrown
  inside the handler is caught at its end and answered with status 500.
\<close>

definition persist ::
  "world \<Rightarrow> cors_headers \<Rightarrow> requestCounts \<Rightarrow> LeadDB \<Rightarrow> response \<times> requestCounts \<times> LeadDB option" where
  "persist w corsHeaders rc l =
     (case store w of
        Thrown m \<Rightarrow>
          (\<lparr>status = 500, body = ErrorDetails ''Internal server error'' m, headers = corsHeaders\<rparr>,
           rc, Some l)
      | Refused m \<Rightarrow>
          (\<lparr>status = 500, body = ErrorDetails ''Database error'' m, headers = corsHeaders\<rparr>,
           rc, Some l)
      | Inserted i \<Rightarrow>
          (\<lparr>status = 201, body = LeadReceived i, headers = corsHeaders\<rparr>, rc, Some l))"

definition POST ::
  "env \<Rightarrow> world \<Rightarrow> requestCounts \<Rightarrow> request \<Rightarrow> response \<times> requestCounts \<times> LeadDB option" where
  "POST e w rc req =
     (let origin = origin_header req;
          corsHeaders = getCORSHeaders origin
      in if \<not> checkCORS e origin
         then (\<lparr>status = 403, body = ErrorBody ''Origin not allowed'', headers = corsHeaders\<rparr>,
               rc, None)
         else if \<not> checkAPIKey e (x_api_key req)
         then (\<lparr>status = 401, body = ErrorBody ''Invalid API Key'', headers = corsHeaders\<rparr>,
               rc, None)
         else
           let ip = caller_ip req
           in case checkRateLimit (clock_rate w) rc ip 20 60000 of (allowed, rc') \<Rightarrow>
             if \<not> allowed
             then (\<lparr>status = 429, body = ErrorBody ''Too many requests'', headers = corsHeaders\<rparr>,
                   rc', None)
             else if bodyText req = []
             then (\<lparr>status = 400, body = ErrorBody ''Empty body'', headers = corsHeaders\<rparr>,
                   rc', None)
             else if \<not> truthy (x_signature req) \<or> \<not> truthy (x_timestamp req)
             then (\<lparr>status = 401, body = ErrorBody ''Missing security headers'',
                    headers = corsHeaders\<rparr>, rc', None)
             else
               let timestampNum = parseInt10 (js_or_lit (x_timestamp req) [])
               in if \<not> verifyTimestamp (clock_fresh w) timestampNum
                  then (\<lparr>status = 401, body = ErrorBody ''Request expired'',
                         headers = corsHeaders\<rparr>, rc', None)
                  else
                    (case verifySignature e (bodyText req) (js_or_lit (x_signature req) []) None of
                       Inl err \<Rightarrow>
                         (\<lparr>status = 500,
                           body = ErrorDetails ''Internal server error''
                                    (case err of Error m \<Rightarrow> m | RangeError m \<Rightarrow> m),
                           headers = corsHeaders\<rparr>, rc', None)
                     | Inr ok \<Rightarrow>
                         if \<not> ok
                         then (\<lparr>status = 401, body = ErrorBody ''Invalid signature'',
                                headers = corsHeaders\<rparr>, rc', None)
                         else
                           (case JSON_parse w of
                              None \<Rightarrow>
                                (\<lparr>status = 400, body = ErrorBody ''Invalid JSON'',
                                  headers = corsHeaders\<rparr>, rc', None)
                            | Some leadData \<Rightarrow>
                                (case LeadSchema_safeParse leadData of
                                   Inl errors \<Rightarrow>
                                     (\<lparr>status = 400, body = ValidationFailed errors,
                                       headers = corsHeaders\<rparr>, rc', None)
                                 | Inr validatedLead \<Rightarrow>
                                     persist w corsHeaders rc'
                                       (leadDB validatedLead origin ip (user_agent_header req)
                                          timestampNum (clock_received w))))))"

section \<open>The expressions the properties speak of\<close>

text \<open>
  The expression \<^verbatim>\<open>verifySignature(P, generateSignature(P, K), K)\<close>: an exception
  thrown while the signature is generated is thrown by the whole expression.
\<close>

definition sign_and_verify :: "env \<Rightarrow> string \<Rightarrow> string option \<Rightarrow> js_error + bool" where
  "sign_and_verify e payload secret =
     (case generateSignature e payload secret of
        Inl err \<Rightarrow> Inl err
      | Inr signature \<Rightarrow> verifySignature e payload signature secret)"

text \<open>
  Reading a decoded object: the string or the number at a key, and whether a key is absent
  or holds a value of the declared type.
\<close>

definition str_at :: "(string \<times> json) list \<Rightarrow> string \<Rightarrow> string option" where
  "str_at kvs k = (case map_of kvs k of Some (JStr s) \<Rightarrow> Some s | _ \<Rightarrow> None)"

definition num_at :: "(string \<times> json) list \<Rightarrow> string \<Rightarrow> rat option" where
  "num_at kvs k = (case map_of kvs k of Some (JNum x) \<Rightarrow> Some x | _ \<Rightarrow> None)"

definition absent_or_string :: "(string \<times> json) list \<Rightarrow> string \<Rightarrow> bool" where
  "absent_or_string kvs k = (case map_of kvs k of None \<Rightarrow> True | Some (JStr s) \<Rightarrow> True | _ \<Rightarrow> False)"

definition absent_or_number :: "(string \<times> json) list \<Rightarrow> string \<Rightarrow> bool" where
  "absent_or_number kvs k = (case map_of kvs k of None \<Rightarrow> True | Some (JNum x) \<Rightarrow> True | _ \<Rightarrow> False)"

text \<open>
  The four conditions on a decoded record: a name of at least 2 characters, an email that
  is valid when present, a phone of at least 9 characters when present, and at least one of
  email and phone present.
\<close>

definition name_ok :: "(string \<times> json) list \<Rightarrow> bool" where
  "name_ok kvs = (case map_of kvs ''name'' of Some (JStr n) \<Rightarrow> 2 \<le> length n | _ \<Rightarrow> False)"

definition email_ok :: "(string \<times> json) list \<Rightarrow> bool" where
  "email_ok kvs = (case map_of kvs ''email'' of None \<Rightarrow> True | Some (JStr e) \<Rightarrow> is_email e | _ \<Rightarrow> False)"

definition phone_ok :: "(string \<times> json) list \<Rightarrow> bool" where
  "phone_ok kvs = (case map_of kvs ''phone'' of None \<Rightarrow> True | Some (JStr p) \<Rightarrow> 9 \<le> length p | _ \<Rightarrow> False)"

definition contact_present :: "(string \<times> json) list \<Rightarrow> bool" where
  "contact_present kvs = (map_of kvs ''email'' \<noteq> None \<or> map_of kvs ''phone'' \<noteq> None)"

definition claimed_conditions :: "(string \<times> json) list \<Rightarrow> bool" where
  "claimed_conditions kvs = (name_ok kvs \<and> email_ok kvs \<and> phone_ok kvs \<and> contact_present kvs)"

text \<open>
  The other fields of the shape: each of the ten optional strings is absent or a string, and
  the timestamp is absent or a number.
\<close>

definition other_fields_typed :: "(string \<times> json) list \<Rightarrow> bool" where
  "other_fields_typed kvs =
     (list_all (absent_or_string kvs)
        [''city'', ''street'', ''message'', ''notes'', ''source'', ''utmSource'', ''utmMedium'',
         ''utmCampaign'', ''utmTerm'', ''utmContent'']
      \<and> absent_or_number kvs ''timestamp'')"

text \<open>The typed record an accepted object is read as.\<close>

definition lead_of :: "(string \<times> json) list \<Rightarrow> LeadInput" where
  "lead_of kvs =
     \<lparr>name = (case str_at kvs ''name'' of None \<Rightarrow> [] | Some n \<Rightarrow> n),
      email = str_at kvs ''email'', phone = str_at kvs ''phone'', city = str_at kvs ''city'',
      street = str_at kvs ''street'', message = str_at kvs ''message'',
      notes = str_at kvs ''notes'', source = str_at kvs ''source'',
      utmSource = str_at kvs ''utmSource'', utmMedium = str_at kvs ''utmMedium'',
      utmCampaign = str_at kvs ''utmCampaign'', utmTerm = str_at kvs ''utmTerm'',
      utmContent = str_at kvs ''utmContent'', timestamp = num_at kvs ''timestamp''\<rparr>"

text \<open>The two rejections of the freshness gate and of the signature gate.\<close>

definition request_expired :: "request \<Rightarrow> response" where
  "request_expired req =
     \<lparr>status = 401, body = ErrorBody ''Request expired'',
      headers = getCORSHeaders (origin_header req)\<rparr>"

definition invalid_signature :: "request \<Rightarrow> response" where
  "invalid_signature req =
     \<lparr>status = 401, body = ErrorBody ''Invalid signature'',
      headers = getCORSHeaders (origin_header req)\<rparr>"

text \<open>
  A request that passes the origin, API-key, rate-limit, body-presence and header-presence
  gates, in the words of the handler's conditions.
\<close>

definition reaches_freshness_gate ::
  "env \<Rightarrow> world \<Rightarrow> requestCounts \<Rightarrow> request \<Rightarrow> bool" where
  "reaches_freshness_gate e w rc req =
     (checkCORS e (origin_header req) \<and> checkAPIKey e (x_api_key req)
      \<and> fst (checkRateLimit (clock_rate w) rc (caller_ip req) 20 60000)
      \<and> bodyText req \<noteq> [] \<and> truthy (x_signature req) \<and> truthy (x_timestamp req))"



text \<open>
  A request to try the handler on: signed with the configured secret, sent at the instant
  1000 and received six minutes and one second later.
\<close>

definition example_body :: string where
  "example_body =
     ''{\"name\":\"Alice\",\"email\":\"a@b.com\",\"message\":\"call me\",\"notes\":\"vip\"}''"

definition example_lead :: "(string \<times> json) list" where
  "example_lead =
     [(''name'', JStr ''Alice''), (''email'', JStr ''a@b.com''),
      (''message'', JStr ''call me''), (''notes'', JStr ''vip'')]"

definition example_env :: env where
  "example_env =
     \<lparr>WEBHOOK_SECRET = Some ''s3cret'', ALLOWED_ORIGINS_var = Some ''example.com'',
      API_KEYS_var = Some ''k1,k2''\<rparr>"

definition example_world :: world where
  "example_world =
     \<lparr>clock_rate = 361000, clock_fresh = 361000,
      JSON_parse = Some (JObj example_lead),
      store = Inserted ''lead-1'', clock_received = ''1970-01-01T00:06:01.000Z''\<rparr>"

definition example_request :: request where
  "example_request =
     \<lparr>origin_header = Some ''https://app.example.com'', x_api_key = Some ''k2'',
      x_forwarded_for = Some ''203.0.113.7'', x_real_ip = None,
      x_signature = Some ''0959fd223a379b4b958ee0c529991816c709176fe6852640af40298c0cf77013'',
      x_timestamp = Some ''1000'', user_agent_header = None,
      bodyText = example_body\<rparr>"

section \<open>Hexadecimal text decodes to the bytes it encodes\<close>

lemma unhex_hex_digits: "list_all (\<lambda>n. unhex (hex_digit n) = Some n) [0..<16]"
  by code_simp

lemma unhex_hex_digit: "n < 16 \<Longrightarrow> unhex (hex_digit n) = Some n"
  using unhex_hex_digits by (simp add: list_all_iff)

lemma byte_of_nibbles: "(of_nat (16 * (unat b div 16) + unat b mod 16) :: byte) = b"
  by (simp add: mult.commute)

lemma Buffer_from_hex_encode_append:
  "Buffer_from_hex (hex_encode bs @ t) = bs @ Buffer_from_hex t"
proof (induction bs)
  case Nil
  show ?case by (simp add: hex_encode_def)
next
  case (Cons b bs)
  have hi: "unat b div 16 < 16"
    using unsigned_less [of b, where ?'a = nat] by (simp add: less_mult_imp_div_less)
  have lo: "unat b mod 16 < 16" by simp
  from Cons show ?case
    by (simp add: hex_encode_def unhex_hex_digit [OF hi] unhex_hex_digit [OF lo] byte_of_nibbles
             del: of_nat_add of_nat_mult)
qed

lemma Buffer_from_hex_encode: "Buffer_from_hex (hex_encode bs) = bs"
  using Buffer_from_hex_encode_append [of bs "[]"] by simp

section \<open>Signing and verifying\<close>

lemma secretKey_of_truthy:
  "truthy secret \<or> truthy (WEBHOOK_SECRET e) \<Longrightarrow> \<exists>k. secretKey_of e secret = Inr k \<and> k \<noteq> []"
  by (auto simp: secretKey_of_def getWebhookSecret_def truthy_def split: option.splits)

lemma secretKey_of_Inr:
  "secretKey_of e secret = Inr k \<Longrightarrow> k \<noteq> [] \<and> secretKey_of e (Some k) = Inr k"
  by (auto simp: secretKey_of_def getWebhookSecret_def split: option.splits if_splits)

lemma generateSignature_Inr:
  "secretKey_of e secret = Inr k \<Longrightarrow>
   generateSignature e payload secret =
     Inr (hex_encode (hmac_sha256 (utf8_encode k) (utf8_encode payload)))"
  by (simp add: generateSignature_def)

text \<open>
  With a secret at hand the verification never throws: it answers whether the bytes
  decoded from the candidate are the expected code.
\<close>

lemma verifySignature_Inr:
  assumes "secretKey_of e secret = Inr k"
  shows "verifySignature e payload signature secret =
         Inr (Buffer_from_hex signature = hmac_sha256 (utf8_encode k) (utf8_encode payload))"
proof -
  from assms have k: "secretKey_of e (Some k) = Inr k"
    by (simp add: secretKey_of_Inr)
  show ?thesis
    using assms
    by (auto simp: verifySignature_def generateSignature_Inr [OF k] Buffer_from_hex_encode
                   timingSafeEqual_def Let_def)
qed

lemma verifySignature_Inl:
  "secretKey_of e secret = Inl err \<Longrightarrow> verifySignature e payload signature secret = Inl err"
  by (simp add: verifySignature_def)

lemma verifySignature_returns:
  assumes "truthy (WEBHOOK_SECRET e)"
  shows "\<exists>r. verifySignature e payload signature None = Inr r"
proof -
  from assms obtain k where "secretKey_of e None = Inr k"
    using secretKey_of_truthy [of None e] by blast
  then show ?thesis
    by (simp add: verifySignature_Inr)
qed

text \<open>
  C1, as the code has it: for every payload and every secret that is a non-empty string,
  and for an empty or omitted secret when \<^verbatim>\<open>WEBHOOK_SECRET\<close> is configured,
  verifying the signature produced by signing the payload returns true.
\<close>

theorem sign_and_verify_true:
  assumes "truthy secret \<or> truthy (WEBHOOK_SECRET e)"
  shows "sign_and_verify e payload secret = Inr True"
proof -
  from assms obtain k where k: "secretKey_of e secret = Inr k"
    using secretKey_of_truthy by blast
  show ?thesis
    by (simp add: sign_and_verify_def generateSignature_Inr [OF k] verifySignature_Inr [OF k]
          Buffer_from_hex_encode)
qed

theorem sign_and_verify_true_witness:
  "truthy (Some ''s3cret'') \<and>
   sign_and_verify \<lparr>WEBHOOK_SECRET = None, ALLOWED_ORIGINS_var = None, API_KEYS_var = None\<rparr>
     example_body (Some ''s3cret'') = Inr True"
  using sign_and_verify_true
    [of "Some ''s3cret''"
        "\<lparr>WEBHOOK_SECRET = None, ALLOWED_ORIGINS_var = None, API_KEYS_var = None\<rparr>"
        "example_body"]
  by (simp add: truthy_def)

text \<open>
  C1 as stated fails for the empty secret when \<^verbatim>\<open>WEBHOOK_SECRET\<close> is not
  set: the empty string counts as no secret, and the configuration error is thrown.
\<close>

theorem sign_and_verify_empty_secret_throws:
  "sign_and_verify \<lparr>WEBHOOK_SECRET = None, ALLOWED_ORIGINS_var = None, API_KEYS_var = None\<rparr>
     example_body (Some '''')
   = Inl (Error ''WEBHOOK_SECRET environment variable is not set'')"
  by (simp add: sign_and_verify_def generateSignature_def secretKey_of_def getWebhookSecret_def)

text \<open>The signature of one payload under one secret, computed.\<close>

lemma example_signature:
  "hex_encode (hmac_sha256 (utf8_encode ''s3cret'') (utf8_encode example_body))
   = ''0959fd223a379b4b958ee0c529991816c709176fe6852640af40298c0cf77013''"
  by code_simp

text \<open>
  C3 at a malformed candidate: the right signature followed by two characters that are
  no hexadecimal digits, or by one more digit (an odd length), is accepted, where the
  property asks for false. Decoding stops at the characters it cannot read and keeps the
  32 bytes before them.
\<close>

theorem verifySignature_accepts_malformed_hex:
  "verifySignature \<lparr>WEBHOOK_SECRET = Some ''s3cret'', ALLOWED_ORIGINS_var = None, API_KEYS_var = None\<rparr>
     example_body
     ''0959fd223a379b4b958ee0c529991816c709176fe6852640af40298c0cf77013zz'' None = Inr True
   \<and>
   verifySignature \<lparr>WEBHOOK_SECRET = Some ''s3cret'', ALLOWED_ORIGINS_var = None, API_KEYS_var = None\<rparr>
     example_body
     ''0959fd223a379b4b958ee0c529991816c709176fe6852640af40298c0cf770130'' None = Inr True"
proof -
  let ?e = "\<lparr>WEBHOOK_SECRET = Some ''s3cret'', ALLOWED_ORIGINS_var = None, API_KEYS_var = None\<rparr>"
  let ?mac = "hmac_sha256 (utf8_encode ''s3cret'') (utf8_encode example_body)"
  let ?sig = "''0959fd223a379b4b958ee0c529991816c709176fe6852640af40298c0cf77013''"
  have k: "secretKey_of ?e None = Inr ''s3cret''"
    by (simp add: secretKey_of_def getWebhookSecret_def)
  have "Buffer_from_hex (hex_encode ?mac @ ''zz'') = ?mac"
    by (simp only: Buffer_from_hex_encode_append) (simp add: unhex_def)
  then have zz: "Buffer_from_hex (?sig @ ''zz'') = ?mac"
    by (simp only: example_signature)
  have "Buffer_from_hex (hex_encode ?mac @ ''0'') = ?mac"
    by (simp only: Buffer_from_hex_encode_append) simp
  then have odd: "Buffer_from_hex (?sig @ ''0'') = ?mac"
    by (simp only: example_signature)
  have "verifySignature ?e example_body (?sig @ ''zz'') None = Inr True"
    by (simp only: verifySignature_Inr [OF k] zz simp_thms)
  moreover have "verifySignature ?e example_body (?sig @ ''0'') None = Inr True"
    by (simp only: verifySignature_Inr [OF k] odd simp_thms)
  ultimately show ?thesis by simp
qed

section \<open>Freshness\<close>

lemma abs_diff_rat_of_int:
  "(\<bar>rat_of_int a - rat_of_int b\<bar> < 300000) = (\<bar>a - b\<bar> < 300000)"
proof -
  have "\<bar>rat_of_int a - rat_of_int b\<bar> = rat_of_int \<bar>a - b\<bar>"
    by simp
  then show ?thesis
    by (simp only: of_int_less_numeral_iff)
qed

text \<open>
  C4: for every integer timestamp \<open>T\<close>, \<open>verifyTimestamp\<close> is true exactly when
  \<open>\<bar>now - T\<bar> < 300000\<close>; at a distance of exactly 300000 on either side it is false,
  and a time \<open>d\<close> ahead is judged as the time \<open>d\<close> behind.
\<close>

theorem verifyTimestamp_window:
  "(verifyTimestamp now (Num (of_int T)) \<longleftrightarrow> \<bar>now - T\<bar> < 300000)
   \<and> \<not> verifyTimestamp now (Num (of_int (now - 300000)))
   \<and> \<not> verifyTimestamp now (Num (of_int (now + 300000)))
   \<and> verifyTimestamp now (Num (of_int (now + d))) = verifyTimestamp now (Num (of_int (now - d)))"
  unfolding verifyTimestamp_def Let_def
  by (simp add: abs_diff_rat_of_int)

section \<open>The rate limiter\<close>

lemma checkRateLimit_reset:
  assumes "rc i = None \<or> (\<exists>r. rc i = Some r \<and> resetAt r < now)"
  shows "checkRateLimit now rc i N W = (True, rc(i \<mapsto> \<lparr>count = 1, resetAt = now + W\<rparr>))"
  using assms by (auto simp: checkRateLimit_def)

lemma checkRateLimit_window:
  assumes "rc i = Some r" and "now \<le> resetAt r"
  shows "checkRateLimit now rc i N W =
         (if count r < N then (True, rc(i \<mapsto> r\<lparr>count := count r + 1\<rparr>)) else (False, rc))"
  using assms by (auto simp: checkRateLimit_def)

lemma rate_answers_append:
  "rate_answers i N W (xs @ ys) rc =
     (case rate_answers i N W xs rc of
        (a, rc') \<Rightarrow> (case rate_answers i N W ys rc' of (b, rc'') \<Rightarrow> (a @ b, rc'')))"
  by (induction xs arbitrary: rc) (auto split: prod.splits)

lemma rate_answers_window:
  assumes "rc i = Some r" and "\<forall>t \<in> set ts. t \<le> resetAt r"
    and "count r + int (length ts) \<le> N"
  shows "rate_answers i N W ts rc =
         (replicate (length ts) True, rc(i \<mapsto> r\<lparr>count := count r + int (length ts)\<rparr>))"
  using assms
proof (induction ts arbitrary: rc r)
  case Nil
  then show ?case by (simp add: map_upd_triv)
next
  case (Cons t ts)
  let ?r = "r\<lparr>count := count r + 1\<rparr>"
  let ?rc = "rc(i \<mapsto> ?r)"
  from Cons.prems have step: "checkRateLimit t rc i N W = (True, ?rc)"
    by (simp add: checkRateLimit_window)
  have rest: "rate_answers i N W ts ?rc =
        (replicate (length ts) True, ?rc(i \<mapsto> ?r\<lparr>count := count ?r + int (length ts)\<rparr>))"
    using Cons.prems by (intro Cons.IH) auto
  have same: "?rc(i \<mapsto> ?r\<lparr>count := count ?r + int (length ts)\<rparr>)
              = rc(i \<mapsto> r\<lparr>count := count r + int (length (t # ts))\<rparr>)"
    by (simp add: algebra_simps)
  show ?case
    by (simp only: rate_answers.simps step prod.case rest same length_Cons replicate_Suc)
qed

lemma fixed_window_run:
  assumes N: "1 \<le> N"
    and start: "rc i = None \<or> (\<exists>r. rc i = Some r \<and> resetAt r < t0)"
    and len: "int (length ts) = N - 1"
    and inside: "\<forall>t \<in> set ts. t \<le> t0 + W"
    and td: "td \<le> t0 + W"
    and ta: "t0 + W < ta"
  shows "rate_answers i N W (t0 # ts @ [td, ta]) rc =
         (replicate (nat N) True @ [False, True],
          rc(i \<mapsto> \<lparr>count = 1, resetAt = ta + W\<rparr>))"
proof -
  let ?rc0 = "rc(i \<mapsto> \<lparr>count = 1, resetAt = t0 + W\<rparr>)"
  let ?rcN = "rc(i \<mapsto> \<lparr>count = N, resetAt = t0 + W\<rparr>)"
  let ?rcA = "rc(i \<mapsto> \<lparr>count = 1, resetAt = ta + W\<rparr>)"
  have first: "checkRateLimit t0 rc i N W = (True, ?rc0)"
    using start by (rule checkRateLimit_reset)
  have "rate_answers i N W ts ?rc0 =
        (replicate (length ts) True,
         ?rc0(i \<mapsto> \<lparr>count = 1, resetAt = t0 + W\<rparr>\<lparr>count := count \<lparr>count = 1, resetAt = t0 + W\<rparr> + int (length ts)\<rparr>))"
    using inside len by (intro rate_answers_window) auto
  then have run: "rate_answers i N W ts ?rc0 = (replicate (length ts) True, ?rcN)"
    using len by simp
  have denied: "checkRateLimit td ?rcN i N W = (False, ?rcN)"
    using td by (simp add: checkRateLimit_window [where r = "\<lparr>count = N, resetAt = t0 + W\<rparr>"])
  have "checkRateLimit ta ?rcN i N W = (True, ?rcN(i \<mapsto> \<lparr>count = 1, resetAt = ta + W\<rparr>))"
    using ta by (intro checkRateLimit_reset) simp
  then have after: "checkRateLimit ta ?rcN i N W = (True, ?rcA)"
    by simp
  have tail: "rate_answers i N W [td, ta] ?rcN = ([False, True], ?rcA)"
    by (simp only: rate_answers.simps denied prod.case after)
  have n: "replicate (nat N) True = True # replicate (length ts) True"
  proof -
    have "nat N = Suc (length ts)" using len N by linarith
    then show ?thesis by simp
  qed
  have "rate_answers i N W (ts @ [td, ta]) ?rc0 = (replicate (length ts) True @ [False, True], ?rcA)"
    by (simp only: rate_answers_append run tail prod.case)
  then show ?thesis
    by (simp only: rate_answers.simps first n prod.case append_Cons)
qed


lemma rate_calls_append:
  "rate_calls L (xs @ ys) rc = rate_calls L ys (rate_calls L xs rc)"
  by (induction xs arbitrary: rc) auto

lemma checkRateLimit_dom: "dom rc \<subseteq> dom (snd (checkRateLimit now rc i L W))"
  by (auto simp: checkRateLimit_def split: option.splits)

lemma rate_calls_dom: "dom rc \<subseteq> dom (rate_calls L cs rc)"
proof (induction cs arbitrary: rc)
  case Nil
  show ?case by simp
next
  case (Cons c cs)
  obtain now i W where c: "c = (now, i, W)" by (cases c)
  have "dom rc \<subseteq> dom (snd (checkRateLimit now rc i L W))"
    by (rule checkRateLimit_dom)
  also have "\<dots> \<subseteq> dom (rate_calls L cs (snd (checkRateLimit now rc i L W)))"
    by (rule Cons.IH)
  finally show ?case by (simp add: c)
qed

text \<open>What one call does to the entry of an identifier.\<close>

lemma checkRateLimit_entry:
  "snd (checkRateLimit now rc i L W) j =
     (if j \<noteq> i then rc j
      else case rc i of
             None \<Rightarrow> Some \<lparr>count = 1, resetAt = now + W\<rparr>
           | Some r \<Rightarrow>
               if resetAt r < now then Some \<lparr>count = 1, resetAt = now + W\<rparr>
               else if L \<le> count r then Some r
               else Some (r\<lparr>count := count r + 1\<rparr>))"
  by (auto simp: checkRateLimit_def split: option.splits)

lemma rate_calls_count:
  assumes "1 \<le> L" and "rate_calls L cs Map.empty j = Some r"
  shows "1 \<le> count r \<and> count r \<le> L"
  using assms(2)
proof (induction cs arbitrary: r rule: rev_induct)
  case Nil
  then show ?case by simp
next
  case (snoc c cs)
  obtain now i W where c: "c = (now, i, W)" by (cases c)
  let ?rc = "rate_calls L cs Map.empty"
  from snoc.prems have r: "snd (checkRateLimit now ?rc i L W) j = Some r"
    by (simp add: rate_calls_append c)
  show ?case
  proof (cases "j = i")
    case False
    with r have "?rc j = Some r" by (simp add: checkRateLimit_entry)
    then show ?thesis by (rule snoc.IH)
  next
    case True
    show ?thesis
    proof (cases "?rc i")
      case None
      with r True assms(1) show ?thesis by (auto simp: checkRateLimit_entry)
    next
      case (Some r0)
      then have "1 \<le> count r0 \<and> count r0 \<le> L" using snoc.IH True by simp
      with r True Some assms(1) show ?thesis
        by (auto simp: checkRateLimit_entry split: if_splits)
    qed
  qed
qed

lemma rate_calls_last_reset:
  assumes "rate_calls L cs Map.empty j = Some r"
  shows "\<exists>cs1 t w cs2. cs = cs1 @ (t, j, w) # cs2
           \<and> (case rate_calls L cs1 Map.empty j of None \<Rightarrow> True | Some r1 \<Rightarrow> resetAt r1 < t)
           \<and> (\<forall>(t', i', w') \<in> set cs2. i' = j \<longrightarrow> t' \<le> t + w)
           \<and> resetAt r = t + w"
  using assms
proof (induction cs arbitrary: r rule: rev_induct)
  case Nil
  then show ?case by simp
next
  case (snoc c cs)
  obtain now i W where c: "c = (now, i, W)" by (cases c)
  let ?rc = "rate_calls L cs Map.empty"
  from snoc.prems have r: "snd (checkRateLimit now ?rc i L W) j = Some r"
    by (simp add: rate_calls_append c)
  have keep: "\<exists>cs1 t w cs2. cs @ [c] = cs1 @ (t, j, w) # cs2
           \<and> (case rate_calls L cs1 Map.empty j of None \<Rightarrow> True | Some r1 \<Rightarrow> resetAt r1 < t)
           \<and> (\<forall>(t', i', w') \<in> set cs2. i' = j \<longrightarrow> t' \<le> t + w)
           \<and> resetAt r = t + w"
    if old: "?rc j = Some r0" and same: "resetAt r = resetAt r0"
      and inside: "i = j \<longrightarrow> now \<le> resetAt r0" for r0
  proof -
    from snoc.IH [OF old] obtain cs1 t w cs2 where
      d: "cs = cs1 @ (t, j, w) # cs2"
      and s: "case rate_calls L cs1 Map.empty j of None \<Rightarrow> True | Some r1 \<Rightarrow> resetAt r1 < t"
      and q: "\<forall>(t', i', w') \<in> set cs2. i' = j \<longrightarrow> t' \<le> t + w"
      and e: "resetAt r0 = t + w"
      by blast
    have "cs @ [c] = cs1 @ (t, j, w) # (cs2 @ [c])" using d by simp
    moreover have "\<forall>(t', i', w') \<in> set (cs2 @ [c]). i' = j \<longrightarrow> t' \<le> t + w"
      using q inside e by (auto simp: c)
    ultimately show ?thesis using s same e by metis
  qed
  show ?case
  proof (cases "j = i")
    case False
    with r have "?rc j = Some r" by (simp add: checkRateLimit_entry)
    then show ?thesis using False by (intro keep [of r]) auto
  next
    case True
    have fresh: ?thesis
      if "case ?rc j of None \<Rightarrow> True | Some r1 \<Rightarrow> resetAt r1 < now" and "resetAt r = now + W"
    proof -
      have "cs @ [c] = cs @ (now, j, W) # []" by (simp add: c True)
      with that show ?thesis by fastforce
    qed
    show ?thesis
    proof (cases "?rc i")
      case None
      with r True show ?thesis by (intro fresh) (auto simp: checkRateLimit_entry)
    next
      case (Some r0)
      show ?thesis
      proof (cases "resetAt r0 < now")
        case expired: True
        with r True Some show ?thesis by (intro fresh) (auto simp: checkRateLimit_entry)
      next
        case False
        with r True Some show ?thesis
          by (intro keep [of r0]) (auto simp: checkRateLimit_entry split: if_splits)
      qed
    qed
  qed
qed

text \<open>
  C5, as the code has it. One call: when the identifier has no entry or the clock is past
  the stored expiry, the entry becomes count 1 with expiry \<open>now + W\<close> and the call is
  allowed; otherwise the call is allowed, and the count incremented, exactly when the
  count is below the limit. A window, for a limit \<open>N\<close> of at least 1: a first call at
  \<open>now\<close> that opens the window, \<open>N - 1\<close> further calls and one more, all no later
  than \<open>now + W\<close>, and a call after \<open>now + W\<close> are answered with \<open>N\<close> times
  allowed, then denied, then allowed with the entry reset.
\<close>

theorem checkRateLimit_fixed_window:
  "((rc i = None \<or> (\<exists>r. rc i = Some r \<and> resetAt r < now)) \<longrightarrow>
      checkRateLimit now rc i N W = (True, rc(i \<mapsto> \<lparr>count = 1, resetAt = now + W\<rparr>)))
   \<and> (\<forall>r. rc i = Some r \<and> now \<le> resetAt r \<longrightarrow>
      checkRateLimit now rc i N W =
        (if count r < N then (True, rc(i \<mapsto> r\<lparr>count := count r + 1\<rparr>)) else (False, rc)))
   \<and> (1 \<le> N \<and> (rc i = None \<or> (\<exists>r. rc i = Some r \<and> resetAt r < now))
        \<and> int (length ts) = N - 1 \<and> (\<forall>t \<in> set ts. t \<le> now + W)
        \<and> td \<le> now + W \<and> now + W < ta \<longrightarrow>
      rate_answers i N W (now # ts @ [td, ta]) rc =
        (replicate (nat N) True @ [False, True],
         rc(i \<mapsto> \<lparr>count = 1, resetAt = ta + W\<rparr>)))"
  using checkRateLimit_reset [of rc i now N W] checkRateLimit_window [of rc i _ now N W]
    fixed_window_run [of N rc i now ts W td ta]
  by blast

theorem checkRateLimit_fixed_window_witness:
  "checkRateLimit 0 Map.empty ''203.0.113.7'' 2 60000 =
     (True, [''203.0.113.7'' \<mapsto> \<lparr>count = 1, resetAt = 60000\<rparr>])
   \<and> rate_answers ''203.0.113.7'' 2 60000 [0, 10, 20, 60001] Map.empty =
     ([True, True, False, True], [''203.0.113.7'' \<mapsto> \<lparr>count = 1, resetAt = 120001\<rparr>])"
proof -
  note w = checkRateLimit_fixed_window [of Map.empty "''203.0.113.7''" 0 2 60000 "[10]" 20 60001]
  from w have one: "checkRateLimit 0 Map.empty ''203.0.113.7'' 2 60000 =
      (True, [''203.0.113.7'' \<mapsto> \<lparr>count = 1, resetAt = 60000\<rparr>])"
    by simp
  from w have "rate_answers ''203.0.113.7'' 2 60000 (0 # [10] @ [20, 60001]) Map.empty =
      (replicate (nat 2) True @ [False, True],
       [''203.0.113.7'' \<mapsto> \<lparr>count = 1, resetAt = 60001 + 60000\<rparr>])"
    by (simp del: rate_answers.simps)
  then have run: "rate_answers ''203.0.113.7'' 2 60000 [0, 10, 20, 60001] Map.empty =
      ([True, True, False, True], [''203.0.113.7'' \<mapsto> \<lparr>count = 1, resetAt = 120001\<rparr>])"
    by (simp del: rate_answers.simps add: eval_nat_numeral)
  from one run show ?thesis by (simp only: simp_thms)
qed

text \<open>
  C5 as stated fails for the limit 0: the call that opens a window is allowed whatever the
  limit, so the first call, which is call \<open>N + 1\<close>, is not denied.
\<close>

theorem checkRateLimit_limit_zero_allows:
  "fst (rate_answers ''203.0.113.7'' 0 60000 [0] Map.empty) = [True]"
  by (simp add: checkRateLimit_def)

text \<open>
  C10: after any run of calls with one limit \<open>L\<close> of at least 1, from the empty map,
  every entry has a count from 1 to \<open>L\<close>, and its reset instant is \<open>t + w\<close> for the
  last call of its identifier that created or reset it (no later call of the identifier
  came after that instant); a call never removes an entry.
\<close>

theorem requestCounts_invariant:
  assumes "1 \<le> L"
  shows "(\<forall>j r. rate_calls L cs Map.empty j = Some r \<longrightarrow>
            1 \<le> count r \<and> count r \<le> L
            \<and> (\<exists>cs1 t w cs2. cs = cs1 @ (t, j, w) # cs2
                 \<and> (case rate_calls L cs1 Map.empty j of
                       None \<Rightarrow> True
                     | Some r1 \<Rightarrow> resetAt r1 < t)
                 \<and> (\<forall>(t', i', w') \<in> set cs2. i' = j \<longrightarrow> t' \<le> t + w)
                 \<and> resetAt r = t + w))
         \<and> dom rc \<subseteq> dom (snd (checkRateLimit now rc i L W))
         \<and> dom rc \<subseteq> dom (rate_calls L cs rc)"
  using assms rate_calls_count [of L cs] rate_calls_last_reset [of L cs]
    checkRateLimit_dom [of rc now i L W] rate_calls_dom [of rc L cs]
  by blast

theorem requestCounts_invariant_witness:
  "(1 :: int) \<le> 2
   \<and> rate_calls 2 [(0, ''a'', 100), (5, ''a'', 100), (7, ''a'', 100), (200, ''b'', 50)] Map.empty ''a''
       = Some \<lparr>count = 2, resetAt = 100\<rparr>
   \<and> 1 \<le> count \<lparr>count = 2, resetAt = 100\<rparr> \<and> count \<lparr>count = 2, resetAt = 100\<rparr> \<le> 2
   \<and> dom [''a'' \<mapsto> \<lparr>count = 2, resetAt = 100\<rparr>]
       \<subseteq> dom (snd (checkRateLimit 200 [''a'' \<mapsto> \<lparr>count = 2, resetAt = 100\<rparr>] ''b'' 2 50))"
  using requestCounts_invariant
    [of 2 "[(0, ''a'', 100), (5, ''a'', 100), (7, ''a'', 100), (200, ''b'', 50)]"
        "[''a'' \<mapsto> \<lparr>count = 2, resetAt = 100\<rparr>]" 200 "''b''" 50]
  by (simp add: checkRateLimit_def)

section \<open>The origin check\<close>

lemma take_length_eq_iff: "take (length t) s = t \<longleftrightarrow> (\<exists>q. s = t @ q)"
proof
  assume "take (length t) s = t"
  then have "s = t @ drop (length t) s"
    by (metis append_take_drop_id)
  then show "\<exists>q. s = t @ q" ..
next
  assume "\<exists>q. s = t @ q"
  then show "take (length t) s = t" by auto
qed

lemma includes_str_iff: "includes_str s t \<longleftrightarrow> (\<exists>p q. s = p @ t @ q)"
proof (induction s)
  case Nil
  show ?case by auto
next
  case (Cons c cs)
  have "(\<exists>p q. c # cs = p @ t @ q) \<longleftrightarrow> (\<exists>q. c # cs = t @ q) \<or> (\<exists>p q. cs = p @ t @ q)"
  proof
    assume "\<exists>p q. c # cs = p @ t @ q"
    then obtain p q where pq: "c # cs = p @ t @ q" by blast
    show "(\<exists>q. c # cs = t @ q) \<or> (\<exists>p q. cs = p @ t @ q)"
    proof (cases p)
      case Nil
      with pq show ?thesis by auto
    next
      case (Cons a p')
      with pq have "cs = p' @ t @ q" by simp
      then show ?thesis by blast
    qed
  next
    assume "(\<exists>q. c # cs = t @ q) \<or> (\<exists>p q. cs = p @ t @ q)"
    then show "\<exists>p q. c # cs = p @ t @ q"
    proof
      assume "\<exists>q. c # cs = t @ q"
      then obtain q where "c # cs = [] @ t @ q" by auto
      then show ?thesis by blast
    next
      assume "\<exists>p q. cs = p @ t @ q"
      then obtain p q where "c # cs = (c # p) @ t @ q" by auto
      then show ?thesis by blast
    qed
  qed
  with Cons show ?case
    by (simp only: includes_str.simps take_length_eq_iff)
qed

text \<open>
  C7: \<open>checkCORS\<close> is true exactly when the origin is present, not empty, and some entry
  of the allow-list occurs in it as a substring; an absent or empty origin is denied
  whatever the allow-list holds, and \<^verbatim>\<open>https://app.example.com\<close> is allowed by
  the entry \<^verbatim>\<open>example.com\<close>.
\<close>

theorem checkCORS_iff:
  "(checkCORS e origin \<longleftrightarrow>
      (\<exists>v. origin = Some v \<and> v \<noteq> []
           \<and> (\<exists>allowed \<in> set (ALLOWED_ORIGINS e). \<exists>p q. v = p @ allowed @ q)))
   \<and> \<not> checkCORS e None \<and> \<not> checkCORS e (Some '''')
   \<and> checkCORS \<lparr>WEBHOOK_SECRET = None, ALLOWED_ORIGINS_var = Some ''example.com'', API_KEYS_var = None\<rparr>
        (Some ''https://app.example.com'')"
proof -
  have "checkCORS e origin \<longleftrightarrow>
      (\<exists>v. origin = Some v \<and> v \<noteq> []
           \<and> (\<exists>allowed \<in> set (ALLOWED_ORIGINS e). \<exists>p q. v = p @ allowed @ q))"
    by (cases origin) (auto simp: checkCORS_def list_ex_iff includes_str_iff)
  moreover have "\<not> checkCORS e None" "\<not> checkCORS e (Some '''')"
    by (simp_all add: checkCORS_def)
  moreover have "checkCORS \<lparr>WEBHOOK_SECRET = None, ALLOWED_ORIGINS_var = Some ''example.com'', API_KEYS_var = None\<rparr>
        (Some ''https://app.example.com'')"
    by (simp add: checkCORS_def ALLOWED_ORIGINS_def)
  ultimately show ?thesis by blast
qed

section \<open>The order of the gates\<close>

lemma js_or_lit_Some: "js_or_lit (Some v) d = (if v = [] then d else v)"
  by (simp add: js_or_lit_def)


lemma POST_freshness_gate:
  assumes "reaches_freshness_gate e w rc req"
    and "x_timestamp req = Some ts"
    and "\<not> verifyTimestamp (clock_fresh w) (parseInt10 ts)"
  shows "POST e w rc req =
     (request_expired req, snd (checkRateLimit (clock_rate w) rc (caller_ip req) 20 60000), None)"
proof -
  obtain ok rc' where rl: "checkRateLimit (clock_rate w) rc (caller_ip req) 20 60000 = (ok, rc')"
    by (cases "checkRateLimit (clock_rate w) rc (caller_ip req) 20 60000")
  from assms have ts: "ts \<noteq> []"
    by (simp add: reaches_freshness_gate_def truthy_def)
  show ?thesis
    using assms rl ts
    unfolding reaches_freshness_gate_def POST_def Let_def
    by (simp add: request_expired_def js_or_lit_Some)
qed

lemma POST_signature_gate:
  assumes "reaches_freshness_gate e w rc req"
    and "x_timestamp req = Some ts" and "x_signature req = Some sig"
    and "verifyTimestamp (clock_fresh w) (parseInt10 ts)"
    and "verifySignature e (bodyText req) sig None = Inr False"
  shows "POST e w rc req =
     (invalid_signature req, snd (checkRateLimit (clock_rate w) rc (caller_ip req) 20 60000), None)"
proof -
  obtain ok rc' where rl: "checkRateLimit (clock_rate w) rc (caller_ip req) 20 60000 = (ok, rc')"
    by (cases "checkRateLimit (clock_rate w) rc (caller_ip req) 20 60000")
  from assms have ne: "ts \<noteq> []" "sig \<noteq> []"
    by (simp_all add: reaches_freshness_gate_def truthy_def)
  show ?thesis
    using assms rl ne
    unfolding reaches_freshness_gate_def POST_def Let_def
    by (simp add: invalid_signature_def js_or_lit_Some)
qed

text \<open>
  C6: a request that passes the origin, API-key, rate-limit, body-presence and
  header-presence gates and carries a stale timestamp is answered 401 "Request expired",
  whatever its signature and whatever the secret; nothing is handed to the store. Only a
  request with a fresh timestamp is answered by the signature: 401 "Invalid signature"
  when the verification returns false.
\<close>

theorem freshness_checked_before_signature:
  assumes "reaches_freshness_gate e w rc req"
    and "x_timestamp req = Some ts" and "x_signature req = Some sig"
  shows "(\<not> verifyTimestamp (clock_fresh w) (parseInt10 ts) \<longrightarrow>
            POST e w rc req =
              (request_expired req,
               snd (checkRateLimit (clock_rate w) rc (caller_ip req) 20 60000), None))
         \<and> (verifyTimestamp (clock_fresh w) (parseInt10 ts)
              \<and> verifySignature e (bodyText req) sig None = Inr False \<longrightarrow>
            POST e w rc req =
              (invalid_signature req,
               snd (checkRateLimit (clock_rate w) rc (caller_ip req) 20 60000), None))"
  using assms POST_freshness_gate [of e w rc req ts] POST_signature_gate [of e w rc req ts sig]
  by blast

lemma example_gates:
  assumes "ts \<noteq> []" and "sig \<noteq> []"
  shows "reaches_freshness_gate (example_env\<lparr>WEBHOOK_SECRET := k\<rparr>) example_world Map.empty
           (example_request\<lparr>x_signature := Some sig, x_timestamp := Some ts\<rparr>)"
  using assms
  by (simp add: reaches_freshness_gate_def checkCORS_def ALLOWED_ORIGINS_def checkAPIKey_def
        VALID_API_KEYS_def caller_ip_def js_or_def js_or_lit_def truthy_def checkRateLimit_def
        example_env_def example_world_def example_request_def example_body_def)

lemma example_counts:
  "snd (checkRateLimit (clock_rate example_world) Map.empty
          (caller_ip (example_request\<lparr>x_signature := g, x_timestamp := t\<rparr>)) 20 60000)
   = [''203.0.113.7'' \<mapsto> \<lparr>count = 1, resetAt = 421000\<rparr>]"
  by (simp add: caller_ip_def js_or_def js_or_lit_def truthy_def checkRateLimit_def
        example_world_def example_request_def)

lemma example_signed:
  "verifySignature example_env (bodyText example_request)
     ''0959fd223a379b4b958ee0c529991816c709176fe6852640af40298c0cf77013'' None = Inr True"
proof -
  let ?mac = "hmac_sha256 (utf8_encode ''s3cret'') (utf8_encode example_body)"
  have k: "secretKey_of example_env None = Inr ''s3cret''"
    by (simp add: secretKey_of_def getWebhookSecret_def example_env_def)
  have b: "bodyText example_request = example_body"
    by (simp add: example_request_def)
  have "Buffer_from_hex (hex_encode ?mac) = ?mac"
    by (rule Buffer_from_hex_encode)
  then have "Buffer_from_hex ''0959fd223a379b4b958ee0c529991816c709176fe6852640af40298c0cf77013'' = ?mac"
    by (simp only: example_signature)
  then show ?thesis
    by (simp only: verifySignature_Inr [OF k] b simp_thms)
qed

theorem freshness_checked_before_signature_witness:
  "verifySignature example_env (bodyText example_request)
     ''0959fd223a379b4b958ee0c529991816c709176fe6852640af40298c0cf77013'' None = Inr True
   \<and> \<not> verifyTimestamp (clock_fresh example_world) (parseInt10 ''1000'')
   \<and> POST example_env example_world Map.empty example_request =
       (request_expired example_request,
        [''203.0.113.7'' \<mapsto> \<lparr>count = 1, resetAt = 421000\<rparr>], None)"
proof -
  let ?sig = "''0959fd223a379b4b958ee0c529991816c709176fe6852640af40298c0cf77013''"
  have req: "example_request\<lparr>x_signature := Some ?sig, x_timestamp := Some ''1000''\<rparr> = example_request"
    by (simp add: example_request_def)
  have env: "example_env\<lparr>WEBHOOK_SECRET := Some ''s3cret''\<rparr> = example_env"
    by (simp add: example_env_def)
  have gates: "reaches_freshness_gate example_env example_world Map.empty example_request"
    using example_gates [where ts = "''1000''" and sig = ?sig and k = "Some ''s3cret''"]
    by (simp only: req env) simp
  have ts: "x_timestamp example_request = Some ''1000''"
    and sg: "x_signature example_request = Some ?sig"
    by (simp_all add: example_request_def)
  have stale: "\<not> verifyTimestamp (clock_fresh example_world) (parseInt10 ''1000'')"
    by (simp add: verifyTimestamp_def parseInt10_def is_space_def is_digit_def example_world_def)
  have counts: "snd (checkRateLimit (clock_rate example_world) Map.empty (caller_ip example_request) 20 60000)
     = [''203.0.113.7'' \<mapsto> \<lparr>count = 1, resetAt = 421000\<rparr>]"
    using example_counts [where g = "Some ?sig" and t = "Some ''1000''"] by (simp only: req)
  have "POST example_env example_world Map.empty example_request =
       (request_expired example_request,
        snd (checkRateLimit (clock_rate example_world) Map.empty (caller_ip example_request) 20 60000), None)"
    using freshness_checked_before_signature [OF gates ts sg] stale by blast
  with counts example_signed stale show ?thesis by (simp only: simp_thms)
qed





section \<open>The schema\<close>

lemma z_string_value:
  "fst (snd (z_string cs p x)) = (case x of Some (JStr s) \<Rightarrow> Some s | _ \<Rightarrow> None)"
  by (simp add: z_string_def Let_def split: option.splits json.splits)

lemma z_string_valid:
  "fst (z_string cs p x) = valid \<longleftrightarrow>
     (case x of Some (JStr s) \<Rightarrow> filter (\<lambda>c. check_fails c s) cs = [] | _ \<Rightarrow> False)"
  by (simp add: z_string_def Let_def split: option.splits json.splits)

lemma z_optional_string_value:
  "fst (snd (z_optional (z_string cs) p x)) = (case x of Some (JStr s) \<Rightarrow> Some s | _ \<Rightarrow> None)"
  by (simp add: z_optional_def z_string_value split: option.splits)

lemma z_optional_string_valid:
  "fst (z_optional (z_string cs) p x) = valid \<longleftrightarrow>
     (case x of None \<Rightarrow> True | Some (JStr s) \<Rightarrow> filter (\<lambda>c. check_fails c s) cs = [] | _ \<Rightarrow> False)"
  by (simp add: z_optional_def z_string_valid split: option.splits)

lemma z_field_value: "fst (snd (z_field kvs k)) = str_at kvs k"
  by (simp add: z_field_def z_optional_string_value str_at_def)

lemma z_field_valid: "fst (z_field kvs k) = valid \<longleftrightarrow> absent_or_string kvs k"
  by (simp add: z_field_def z_optional_string_valid absent_or_string_def
           split: option.splits json.splits)

lemma z_number_value:
  "fst (snd (z_optional z_number p x)) = (case x of Some (JNum n) \<Rightarrow> Some n | _ \<Rightarrow> None)"
  by (simp add: z_optional_def z_number_def split: option.splits json.splits)

lemma z_number_valid:
  "fst (z_optional z_number p x) = valid \<longleftrightarrow>
     (case x of None \<Rightarrow> True | Some (JNum n) \<Rightarrow> True | _ \<Rightarrow> False)"
  by (simp add: z_optional_def z_number_def split: option.splits json.splits)

lemma merge_status_valid: "merge_status ss = valid \<longleftrightarrow> list_all (\<lambda>s. s = valid) ss"
proof (induction ss)
  case Nil
  show ?case by (simp add: merge_status_def)
next
  case (Cons s ss)
  then show ?case by (cases s) (auto simp: merge_status_def split: if_splits)
qed

lemma LeadSchema_object_status:
  "fst (LeadSchema_object (JObj kvs)) = valid \<longleftrightarrow>
     name_ok kvs \<and> email_ok kvs \<and> phone_ok kvs \<and> other_fields_typed kvs"
  by (simp add: LeadSchema_object_def split_beta merge_status_valid z_string_valid
        z_optional_string_valid z_field_valid z_number_valid name_ok_def email_ok_def
        phone_ok_def other_fields_typed_def absent_or_number_def not_less conj_ac
      split: option.splits json.splits)


lemma LeadSchema_object_value:
  assumes "name_ok kvs"
  shows "fst (snd (LeadSchema_object (JObj kvs))) = Some (lead_of kvs)"
proof -
  from assms obtain n where n: "map_of kvs ''name'' = Some (JStr n)"
    by (auto simp: name_ok_def split: option.splits json.splits)
  show ?thesis
    by (simp add: LeadSchema_object_def split_beta z_string_value z_optional_string_value
          z_field_value z_number_value lead_of_def n str_at_def num_at_def)
qed

lemma LeadSchema_object_not_object:
  "\<forall>kvs. j \<noteq> JObj kvs \<Longrightarrow> fst (snd (LeadSchema_object j)) = None"
  by (cases j) (simp_all add: LeadSchema_object_def)

lemma LeadSchema_safeParse_Inr:
  "LeadSchema_safeParse j = Inr v \<longleftrightarrow>
     fst (LeadSchema_object j) = valid \<and> fst (snd (LeadSchema_object j)) = Some v
     \<and> (truthy (email v) \<or> truthy (phone v))"
proof -
  obtain st vo issues where o: "LeadSchema_object j = (st, vo, issues)"
    by (cases "LeadSchema_object j")
  show ?thesis
    by (cases vo; cases st) (auto simp: LeadSchema_safeParse_def o)
qed

lemma is_email_Nil: "\<not> is_email []"
  by (simp add: is_email_def)

lemma contact_truthy:
  assumes "email_ok kvs" and "phone_ok kvs"
  shows "truthy (email (lead_of kvs)) \<or> truthy (phone (lead_of kvs)) \<longleftrightarrow> contact_present kvs"
proof -
  have e: "truthy (email (lead_of kvs)) \<longleftrightarrow> map_of kvs ''email'' \<noteq> None"
    using assms(1)
    by (auto simp: email_ok_def lead_of_def str_at_def truthy_def is_email_Nil
             split: option.splits json.splits)
  have p: "truthy (phone (lead_of kvs)) \<longleftrightarrow> map_of kvs ''phone'' \<noteq> None"
    using assms(2)
    by (auto simp: phone_ok_def lead_of_def str_at_def truthy_def
             split: option.splits json.splits)
  show ?thesis by (simp only: e p contact_present_def)
qed

lemma LeadSchema_safeParse_JObj:
  "LeadSchema_safeParse (JObj kvs) = Inr v \<longleftrightarrow>
     claimed_conditions kvs \<and> other_fields_typed kvs \<and> v = lead_of kvs"
proof (cases "name_ok kvs \<and> email_ok kvs \<and> phone_ok kvs")
  case True
  then show ?thesis
    using contact_truthy [of kvs]
    by (auto simp: LeadSchema_safeParse_Inr LeadSchema_object_status LeadSchema_object_value
          claimed_conditions_def)
next
  case False
  then show ?thesis
    by (auto simp: LeadSchema_safeParse_Inr LeadSchema_object_status claimed_conditions_def)
qed

lemma LeadSchema_safeParse_accepts:
  "(\<exists>v. LeadSchema_safeParse j = Inr v) \<longleftrightarrow>
     (\<exists>kvs. j = JObj kvs \<and> claimed_conditions kvs \<and> other_fields_typed kvs)"
proof (cases "\<exists>kvs. j = JObj kvs")
  case True
  then show ?thesis by (auto simp: LeadSchema_safeParse_JObj)
next
  case False
  then have "fst (snd (LeadSchema_object j)) = None"
    by (intro LeadSchema_object_not_object) blast
  with False show ?thesis by (simp add: LeadSchema_safeParse_Inr)
qed

lemma example_Al:
  "LeadSchema_safeParse (JObj [(''name'', JStr ''Al'')])
        = Inl [\<lparr>issue_path = [''email''], issue_message = contact_message\<rparr>]"
  by (simp add: LeadSchema_safeParse_def LeadSchema_object_def z_string_def z_optional_def
        z_field_def z_number_def merge_status_def truthy_def)

lemma email_ab: "is_email ''a@b.com''"
  by (simp add: is_email_def email_local_char_def email_last_char_def email_label_def
        email_tld_def is_alpha_def is_digit_def)

lemma example_Alice:
  "LeadSchema_safeParse (JObj [(''name'', JStr ''Alice''), (''email'', JStr ''a@b.com'')])
        = Inr \<lparr>name = ''Alice'', email = Some ''a@b.com'', phone = None, city = None,
               street = None, message = None, notes = None, source = None, utmSource = None,
               utmMedium = None, utmCampaign = None, utmTerm = None, utmContent = None,
               timestamp = None\<rparr>"
  by (simp add: LeadSchema_safeParse_JObj claimed_conditions_def name_ok_def email_ok_def
        phone_ok_def contact_present_def other_fields_typed_def absent_or_string_def
        absent_or_number_def email_ab lead_of_def str_at_def num_at_def)

text \<open>
  C8, as the code has it: the schema accepts a decoded value exactly when it is an object
  whose name has at least 2 characters, whose email (when present) is a valid email, whose
  phone (when present) has at least 9 characters, which has an email or a phone, and whose
  other fields of the shape, when present, have their declared types. The record with
  name "Al" and no email or phone is rejected with the contact-channel violation alone; the
  record with name "Alice" and email "a@b.com" is accepted.
\<close>

theorem LeadSchema_accepts_iff:
  "((\<exists>v. LeadSchema_safeParse j = Inr v) \<longleftrightarrow>
      (\<exists>kvs. j = JObj kvs \<and> claimed_conditions kvs \<and> other_fields_typed kvs))
   \<and> LeadSchema_safeParse (JObj [(''name'', JStr ''Al'')])
        = Inl [\<lparr>issue_path = [''email''], issue_message = contact_message\<rparr>]
   \<and> LeadSchema_safeParse (JObj [(''name'', JStr ''Alice''), (''email'', JStr ''a@b.com'')])
        = Inr \<lparr>name = ''Alice'', email = Some ''a@b.com'', phone = None, city = None,
               street = None, message = None, notes = None, source = None, utmSource = None,
               utmMedium = None, utmCampaign = None, utmTerm = None, utmContent = None,
               timestamp = None\<rparr>"
  using LeadSchema_safeParse_accepts [of j] example_Al example_Alice
  by (simp only: simp_thms)

theorem LeadSchema_accepts_iff_witness:
  "claimed_conditions [(''name'', JStr ''Bo''), (''phone'', JStr ''600123456'')]
   \<and> other_fields_typed [(''name'', JStr ''Bo''), (''phone'', JStr ''600123456'')]
   \<and> (\<exists>v. LeadSchema_safeParse (JObj [(''name'', JStr ''Bo''), (''phone'', JStr ''600123456'')]) = Inr v)"
proof -
  let ?kvs = "[(''name'', JStr ''Bo''), (''phone'', JStr ''600123456'')]"
  have c: "claimed_conditions ?kvs"
    by (simp add: claimed_conditions_def name_ok_def email_ok_def phone_ok_def contact_present_def)
  have t: "other_fields_typed ?kvs"
    by (simp add: other_fields_typed_def absent_or_string_def absent_or_number_def)
  from c t have "\<exists>kvs. JObj ?kvs = JObj kvs \<and> claimed_conditions kvs \<and> other_fields_typed kvs"
    by blast
  with LeadSchema_accepts_iff [of "JObj ?kvs"] have "\<exists>v. LeadSchema_safeParse (JObj ?kvs) = Inr v"
    by blast
  with c t show ?thesis by blast
qed

text \<open>
  C8 as stated fails in the direction from the four conditions to acceptance: a record that
  meets them and carries a number as its city is rejected.
\<close>

theorem LeadSchema_rejects_mistyped_city:
  "claimed_conditions [(''name'', JStr ''Alice''), (''email'', JStr ''a@b.com''), (''city'', JNum 5)]
   \<and> LeadSchema_safeParse
       (JObj [(''name'', JStr ''Alice''), (''email'', JStr ''a@b.com''), (''city'', JNum 5)])
     = Inl [\<lparr>issue_path = [''city''], issue_message = ''Expected string, received number''\<rparr>]"
  by (simp add: claimed_conditions_def name_ok_def email_ok_def phone_ok_def contact_present_def
        email_ab LeadSchema_safeParse_def LeadSchema_object_def z_string_def z_optional_def
        z_field_def z_number_def merge_status_def truthy_def invalid_type_def)

section \<open>The stored lead\<close>

lemma POST_persists:
  assumes "reaches_freshness_gate e w rc req"
    and "x_timestamp req = Some ts" and "x_signature req = Some sig"
    and "verifyTimestamp (clock_fresh w) (parseInt10 ts)"
    and "verifySignature e (bodyText req) sig None = Inr True"
    and "JSON_parse w = Some j" and "LeadSchema_safeParse j = Inr v"
  shows "POST e w rc req =
     persist w (getCORSHeaders (origin_header req))
       (snd (checkRateLimit (clock_rate w) rc (caller_ip req) 20 60000))
       (leadDB v (origin_header req) (caller_ip req) (user_agent_header req) (parseInt10 ts)
          (clock_received w))"
proof -
  obtain ok rc' where rl: "checkRateLimit (clock_rate w) rc (caller_ip req) 20 60000 = (ok, rc')"
    by (cases "checkRateLimit (clock_rate w) rc (caller_ip req) 20 60000")
  from assms have ne: "ts \<noteq> []" "sig \<noteq> []"
    by (simp_all add: reaches_freshness_gate_def truthy_def)
  show ?thesis
    using assms rl ne
    unfolding reaches_freshness_gate_def POST_def Let_def
    by (simp add: js_or_lit_Some)
qed

lemma persist_stores: "snd (snd (persist w h rc l)) = Some l"
  by (simp add: persist_def split: store_answer.splits)

lemma POST_stored:
  assumes "snd (snd (POST e w rc req)) = Some l"
  shows "\<exists>j v ts. JSON_parse w = Some j \<and> LeadSchema_safeParse j = Inr v
          \<and> l = leadDB v (origin_header req) (caller_ip req) (user_agent_header req) ts
                  (clock_received w)"
  using assms
  unfolding POST_def Let_def
  by (auto simp: persist_stores split: if_splits prod.splits sum.splits option.splits)

text \<open>
  C2, as the code has it: whenever the handler hands a record to the store, the body
  decoded to an object, and the stored notes are the payload's message when the message is
  present and not empty, and the payload's notes otherwise: the message has the priority
  and notes is the fallback.
\<close>

theorem stored_notes:
  assumes "snd (snd (POST e w rc req)) = Some l"
  shows "\<exists>kvs. JSON_parse w = Some (JObj kvs)
          \<and> db_notes l =
              (case str_at kvs ''message'' of
                 None \<Rightarrow> str_at kvs ''notes''
               | Some m \<Rightarrow> if m = [] then str_at kvs ''notes'' else Some m)"
proof -
  from POST_stored [OF assms] obtain j v ts where
    j: "JSON_parse w = Some j" and v: "LeadSchema_safeParse j = Inr v"
    and l: "l = leadDB v (origin_header req) (caller_ip req) (user_agent_header req) ts
                  (clock_received w)"
    by blast
  from v obtain kvs where kvs: "j = JObj kvs"
    using LeadSchema_safeParse_accepts [of j] by blast
  with v have "v = lead_of kvs"
    by (simp add: LeadSchema_safeParse_JObj)
  then have "db_notes l =
              (case str_at kvs ''message'' of
                 None \<Rightarrow> str_at kvs ''notes''
               | Some m \<Rightarrow> if m = [] then str_at kvs ''notes'' else Some m)"
    by (simp add: l leadDB_def lead_of_def js_or_def truthy_def split: option.splits)
  with j kvs show ?thesis by blast
qed


lemma reaches_freshness_gate_clock:
  "reaches_freshness_gate e (w\<lparr>clock_fresh := c\<rparr>) rc req = reaches_freshness_gate e w rc req"
  by (simp add: reaches_freshness_gate_def)

lemma example_lead_parses: "LeadSchema_safeParse (JObj example_lead) = Inr (lead_of example_lead)"
  by (simp add: LeadSchema_safeParse_JObj claimed_conditions_def name_ok_def email_ok_def
        phone_ok_def contact_present_def other_fields_typed_def absent_or_string_def
        absent_or_number_def email_ab example_lead_def)

lemma example_stored:
  "snd (snd (POST example_env (example_world\<lparr>clock_fresh := 1250\<rparr>) Map.empty example_request))
   = Some (leadDB (lead_of example_lead) (Some ''https://app.example.com'') ''203.0.113.7'' None
             (Num 1000) ''1970-01-01T00:06:01.000Z'')"
proof -
  let ?sig = "''0959fd223a379b4b958ee0c529991816c709176fe6852640af40298c0cf77013''"
  let ?w = "example_world\<lparr>clock_fresh := 1250\<rparr>"
  have req: "example_request\<lparr>x_signature := Some ?sig, x_timestamp := Some ''1000''\<rparr> = example_request"
    by (simp add: example_request_def)
  have env: "example_env\<lparr>WEBHOOK_SECRET := Some ''s3cret''\<rparr> = example_env"
    by (simp add: example_env_def)
  have "reaches_freshness_gate example_env example_world Map.empty example_request"
    using example_gates [where ts = "''1000''" and sig = ?sig and k = "Some ''s3cret''"]
    by (simp only: req env) simp
  then have gates: "reaches_freshness_gate example_env ?w Map.empty example_request"
    by (simp only: reaches_freshness_gate_clock)
  have ts: "x_timestamp example_request = Some ''1000''"
    and sg: "x_signature example_request = Some ?sig"
    by (simp_all add: example_request_def)
  have n: "parseInt10 ''1000'' = Num 1000"
    by (simp add: parseInt10_def is_space_def is_digit_def)
  have fresh: "verifyTimestamp (clock_fresh ?w) (parseInt10 ''1000'')"
    by (simp add: n verifyTimestamp_def)
  have j: "JSON_parse ?w = Some (JObj example_lead)"
    by (simp add: example_world_def)
  have "POST example_env ?w Map.empty example_request =
     persist ?w (getCORSHeaders (origin_header example_request))
       (snd (checkRateLimit (clock_rate ?w) Map.empty (caller_ip example_request) 20 60000))
       (leadDB (lead_of example_lead) (origin_header example_request) (caller_ip example_request)
          (user_agent_header example_request) (parseInt10 ''1000'') (clock_received ?w))"
    by (rule POST_persists [OF gates ts sg fresh example_signed j example_lead_parses])
  then show ?thesis
    by (simp add: persist_stores n)
       (simp add: example_request_def example_world_def caller_ip_def js_or_def js_or_lit_def
          truthy_def)
qed

theorem stored_notes_witness:
  "snd (snd (POST example_env (example_world\<lparr>clock_fresh := 1250\<rparr>) Map.empty example_request))
     = Some (leadDB (lead_of example_lead) (Some ''https://app.example.com'') ''203.0.113.7'' None
               (Num 1000) ''1970-01-01T00:06:01.000Z'')
   \<and> db_notes (leadDB (lead_of example_lead) (Some ''https://app.example.com'') ''203.0.113.7'' None
               (Num 1000) ''1970-01-01T00:06:01.000Z'') = Some ''call me''"
proof -
  from stored_notes [OF example_stored] obtain kvs where
    "JSON_parse (example_world\<lparr>clock_fresh := 1250\<rparr>) = Some (JObj kvs)"
    and n: "db_notes (leadDB (lead_of example_lead) (Some ''https://app.example.com'') ''203.0.113.7'' None
               (Num 1000) ''1970-01-01T00:06:01.000Z'') =
              (case str_at kvs ''message'' of
                 None \<Rightarrow> str_at kvs ''notes''
               | Some m \<Rightarrow> if m = [] then str_at kvs ''notes'' else Some m)"
    by blast
  then have "kvs = example_lead"
    by (simp add: example_world_def)
  with n have "db_notes (leadDB (lead_of example_lead) (Some ''https://app.example.com'') ''203.0.113.7'' None
               (Num 1000) ''1970-01-01T00:06:01.000Z'') = Some ''call me''"
    by (simp add: str_at_def example_lead_def)
  with example_stored show ?thesis by (simp only: simp_thms)
qed

text \<open>
  C2 as stated fails: for a validated lead with both a message and notes, the stored notes
  are the message, not the notes.
\<close>

theorem stored_notes_prefers_message:
  "str_at example_lead ''notes'' = Some ''vip''
   \<and> map_option db_notes
        (snd (snd (POST example_env (example_world\<lparr>clock_fresh := 1250\<rparr>) Map.empty
                     example_request)))
      = Some (Some ''call me'')"
  by (simp add: example_stored leadDB_def lead_of_def str_at_def example_lead_def js_or_def
        truthy_def)

section \<open>A timestamp that starts with a number\<close>



end
